theory Spec2Isabelle
  imports Complex_Main "HOL-Library.AList"
begin

section \<open>Data model\<close>

text \<open>
  The embedding follows \<^verbatim>\<open>src/autoscaler/scaling_policy.py\<close>. Python integers are
  \<open>int\<close>; Python floats (costs, seconds, factors) are modelled as exact rationals.

  A pod is an object with default (identity) hashing: \<open>pod_uid\<close> stands for the identity
  of the object, \<open>resources\<close> for its \<^verbatim>\<open>pod.resources\<close>. The type \<open>'r\<close> of resource vectors
  (\<^verbatim>\<open>autoscaler.kube.KubeResource\<close>) is not part of the sources at hand: it stays a type
  parameter, and its subtraction and its \<^verbatim>\<open>possible\<close> property are parameters of the model.
\<close>

record 'r kube_pod =
  pod_uid :: nat
  resources :: 'r

text \<open>
  The attributes of a scaling group that the policy reads. The source's variable
  \<^verbatim>\<open>group\<close> is written \<open>group'\<close> throughout (\<open>group\<close> is a constant of HOL).
\<close>

record scaling_group =
  group_name :: string
  instance_type :: string
  max_size :: int
  desired_capacity :: int
  actual_capacity :: int
  unschedulable_nodes :: "string list"

text \<open>
  Exceptions as values. \<open>OtherException\<close> stands for every exception class that is neither
  \<^verbatim>\<open>CloudError\<close> (with its message) nor \<^verbatim>\<open>TimeoutError\<close> nor \<^verbatim>\<open>KeyError\<close>.
\<close>

datatype exn = CloudError string | TimeoutError | KeyError string | OtherException string

text \<open>
  What \<^verbatim>\<open>future.result()\<close> does on a finished scale call: it returns a value, of which
  only the truth value is read, or it raises.
\<close>

datatype future_result = Returns bool | Raises exn

text \<open>
  The collaborators that the policy calls and that are not part of the sources at hand,
  taken as parameters:
  \<^item> \<open>possible\<close>, \<open>subtract\<close>: \<^verbatim>\<open>KubeResource.possible\<close> and \<^verbatim>\<open>KubeResource.__sub__\<close>;
  \<^item> \<open>get_unit_capacity\<close>: \<^verbatim>\<open>capacity.get_unit_capacity(group)\<close>;
  \<^item> \<open>is_taints_tolerated\<close>: \<^verbatim>\<open>group.is_taints_tolerated(pod)\<close>;
  \<^item> \<open>group_is_timed_out\<close>: \<^verbatim>\<open>group.is_timed_out()\<close>;
  \<^item> \<open>timeouts_is_timed_out\<close>: \<^verbatim>\<open>cluster.autoscaling_timeouts.is_timed_out(group)\<close>;
  \<^item> \<open>get_groups_for_hash\<close>: \<^verbatim>\<open>utils.get_groups_for_hash(asgs, selectors_hash)\<close>;
  \<^item> \<open>prioritize_groups\<close>: \<^verbatim>\<open>cluster._prioritize_groups(groups)\<close>;
  \<^item> \<open>over_provision\<close>: \<^verbatim>\<open>cluster.over_provision\<close>;
  \<^item> \<open>scale\<close>: the outcome of the future that \<^verbatim>\<open>group.scale(new_capacity)\<close> returns.
  Within one decision cycle each of them is a function of its arguments.
\<close>

record 'r world =
  possible :: "'r \<Rightarrow> bool"
  subtract :: "'r \<Rightarrow> 'r \<Rightarrow> 'r"
  get_unit_capacity :: "scaling_group \<Rightarrow> 'r"
  is_taints_tolerated :: "scaling_group \<Rightarrow> 'r kube_pod \<Rightarrow> bool"
  group_is_timed_out :: "scaling_group \<Rightarrow> bool"
  timeouts_is_timed_out :: "scaling_group \<Rightarrow> bool"
  get_groups_for_hash :: "scaling_group list \<Rightarrow> string \<Rightarrow> scaling_group list"
  prioritize_groups :: "scaling_group list \<Rightarrow> scaling_group list"
  over_provision :: int
  scale :: "scaling_group \<Rightarrow> int \<Rightarrow> future_result"

text \<open>
  An async operation as \<^verbatim>\<open>create_async_operation\<close> builds it: the future of
  \<^verbatim>\<open>group.scale(new_capacity)\<close> (its argument and its outcome) together with what the
  callback \<^verbatim>\<open>notify_if_scaled\<close> has captured.
\<close>

record 'r async_operation =
  op_group :: scaling_group
  op_new_capacity :: int
  op_units_requested :: int
  op_assigned_pods :: "'r kube_pod list list"
  op_result :: future_result

text \<open>
  \<^verbatim>\<open>pending_pods\<close> is a dict from selectors hash to the list of pods: an association list,
  read with \<^verbatim>\<open>pending_pods.get(selectors_hash, [])\<close>. \<^verbatim>\<open>set(pending_pods.keys())\<close> holds
  each key once; the order of the list stands for the order Python iterates the set in.
\<close>

type_synonym 'r pending = "(string \<times> 'r kube_pod list) list"

definition pending_keys :: "'r pending \<Rightarrow> string list" where
  "pending_keys pending_pods = remdups (map fst pending_pods)"

definition pending_get :: "'r pending \<Rightarrow> string \<Rightarrow> 'r kube_pod list" where
  "pending_get pending_pods selectors_hash =
     (case map_of pending_pods selectors_hash of None \<Rightarrow> [] | Some pods \<Rightarrow> pods)"

section \<open>The allocation loop of \<^verbatim>\<open>decide_num_instances\<close>\<close>

text \<open>
  \<^verbatim>\<open>accounted_pods = dict((p, False) for p in pods)\<close>: a dict keeps each key once, at the
  place of its first insertion. No line of the source ever stores \<^verbatim>\<open>True\<close> in it.
\<close>

definition accounted_pods :: "'r kube_pod list \<Rightarrow> ('r kube_pod \<times> bool) list" where
  "accounted_pods pods = fold (\<lambda>p d. AList.update p False d) pods []"

text \<open>
  The inner loop \<^verbatim>\<open>for i, instance in enumerate(new_instance_resources)\<close>: the first
  instance that can still take the pod, with its index; \<open>None\<close> when the loop ends with
  \<^verbatim>\<open>found_fit\<close> still false.
\<close>

fun first_fit :: "'r world \<Rightarrow> 'r \<Rightarrow> (nat \<times> 'r) list \<Rightarrow> (nat \<times> 'r) option" where
  "first_fit w r [] = None"
| "first_fit w r ((i, instance) # rest) =
     (if possible w (subtract w instance r) then Some (i, instance) else first_fit w r rest)"

text \<open>
  One iteration of \<^verbatim>\<open>for pod, acc in accounted_pods.items()\<close> (lines 74 to 88), on the
  state \<open>(new_instance_resources, assigned_pods)\<close>.
\<close>

definition place_pod ::
  "'r world \<Rightarrow> scaling_group \<Rightarrow> 'r \<Rightarrow> 'r kube_pod \<times> bool \<Rightarrow>
   'r list \<times> 'r kube_pod list list \<Rightarrow> 'r list \<times> 'r kube_pod list list" where
  "place_pod w group' unit_capacity item st =
     (case item of (pod, acc) \<Rightarrow>
      (case st of (new_instance_resources, assigned_pods) \<Rightarrow>
        if acc \<or> \<not> possible w (subtract w unit_capacity (resources pod))
               \<or> \<not> is_taints_tolerated w group' pod
        then st
        else
          (case first_fit w (resources pod) (enumerate 0 new_instance_resources) of
             Some (i, instance) \<Rightarrow>
               (new_instance_resources[i := subtract w instance (resources pod)],
                assigned_pods[i := assigned_pods ! i @ [pod]])
           | None \<Rightarrow>
               (new_instance_resources @ [subtract w unit_capacity (resources pod)],
                assigned_pods @ [[pod]]))))"

definition place_pods ::
  "'r world \<Rightarrow> scaling_group \<Rightarrow> ('r kube_pod \<times> bool) list \<Rightarrow>
   'r list \<times> 'r kube_pod list list \<Rightarrow> 'r list \<times> 'r kube_pod list list" where
  "place_pods w group' items st = fold (place_pod w group' (get_unit_capacity w group')) items st"

text \<open>Lines 71 to 88: the whole allocation for one group.\<close>

definition allocate ::
  "'r world \<Rightarrow> scaling_group \<Rightarrow> 'r kube_pod list \<Rightarrow> 'r list \<times> 'r kube_pod list list" where
  "allocate w group' pods = place_pods w group' (accounted_pods pods) ([], [])"

section \<open>The base policy\<close>

text \<open>
  Lines 66 to 108, the same text as lines 176 to 218 of the cost based policy: the body
  of \<^verbatim>\<open>for group in groups\<close> up to \<^verbatim>\<open>units_requested\<close>. \<open>None\<close> is a \<^verbatim>\<open>continue\<close>.
\<close>

definition units_for_group ::
  "'r world \<Rightarrow> scaling_group \<Rightarrow> 'r kube_pod list \<Rightarrow> ('r kube_pod list list \<times> int) option" where
  "units_for_group w group' pods =
     (if (timeouts_is_timed_out w group' \<or> group_is_timed_out w group'
            \<or> max_size group' = desired_capacity group')
         \<and> unschedulable_nodes group' = []
      then None
      else
        (case allocate w group' pods of (new_instance_resources, assigned_pods) \<Rightarrow>
          let units_needed = int (length new_instance_resources) in
          if units_needed = 0 then None
          else
            let units_needed = units_needed + over_provision w;
                unavailable_units =
                  (if timeouts_is_timed_out w group' \<or> group_is_timed_out w group'
                   then max 0 (units_needed - (desired_capacity group' - actual_capacity group'))
                   else max 0 (units_needed - (max_size group' - actual_capacity group')));
                units_requested = units_needed - unavailable_units
            in Some (assigned_pods, units_requested)))"

text \<open>
  \<^verbatim>\<open>create_async_operation\<close> (lines 35 to 46): the scale call is issued, and the callback
  \<^verbatim>\<open>notify_if_scaled\<close> (below) is registered on its future.
\<close>

definition create_async_operation ::
  "'r world \<Rightarrow> scaling_group \<Rightarrow> 'r kube_pod list list \<Rightarrow> int \<Rightarrow> int \<Rightarrow> 'r async_operation" where
  "create_async_operation w group' assigned_pods new_capacity units_requested =
     \<lparr>op_group = group', op_new_capacity = new_capacity, op_units_requested = units_requested,
      op_assigned_pods = assigned_pods, op_result = scale w group' new_capacity\<rparr>"

text \<open>The body of \<^verbatim>\<open>for group in groups\<close> of the base policy, lines 66 to 113.\<close>

definition scale_group ::
  "'r world \<Rightarrow> 'r kube_pod list \<Rightarrow> scaling_group \<Rightarrow> 'r async_operation list \<Rightarrow>
   'r async_operation list" where
  "scale_group w pods group' async_operations =
     (case units_for_group w group' pods of
        None \<Rightarrow> async_operations
      | Some (assigned_pods, units_requested) \<Rightarrow>
          let new_capacity = actual_capacity group' + units_requested
          in async_operations @
               [create_async_operation w group' assigned_pods new_capacity units_requested])"

text \<open>\<^verbatim>\<open>ScalingPolicy.decide_num_instances\<close>, lines 54 to 113.\<close>

definition decide_num_instances ::
  "'r world \<Rightarrow> 'r pending \<Rightarrow> scaling_group list \<Rightarrow> 'r async_operation list \<Rightarrow>
   'r async_operation list" where
  "decide_num_instances w pending_pods asgs async_operations =
     fold (\<lambda>selectors_hash ops.
             let pods = pending_get pending_pods selectors_hash;
                 groups = prioritize_groups w (get_groups_for_hash w asgs selectors_hash)
             in fold (scale_group w pods) groups ops)
          (pending_keys pending_pods) async_operations"

text \<open>
  What is left of one fresh unit once the pods \<open>ps\<close> have been taken from it, one after
  the other.
\<close>

definition residual :: "'r world \<Rightarrow> 'r \<Rightarrow> 'r kube_pod list \<Rightarrow> 'r" where
  "residual w unit_capacity ps = foldl (subtract w) unit_capacity (map resources ps)"

text \<open>
  The state of the allocation loop is sound for \<open>pods\<close>: every bin holds the residual of
  its own pods and that residual is possible, no bin is empty, and every assigned pod is
  one of \<open>pods\<close>, is tolerated by the group and fits a fresh unit alone.
\<close>

definition packing_ok ::
  "'r world \<Rightarrow> scaling_group \<Rightarrow> 'r kube_pod list \<Rightarrow> 'r list \<times> 'r kube_pod list list \<Rightarrow> bool" where
  "packing_ok w group' pods st =
     (case st of (new_instance_resources, assigned_pods) \<Rightarrow>
        new_instance_resources = map (residual w (get_unit_capacity w group')) assigned_pods
        \<and> (\<forall>r\<in>set new_instance_resources. possible w r)
        \<and> (\<forall>ps\<in>set assigned_pods. ps \<noteq> [])
        \<and> (\<forall>p\<in>set (concat assigned_pods).
              p \<in> set pods \<and> is_taints_tolerated w group' p
              \<and> possible w (subtract w (get_unit_capacity w group') (resources p))))"

section \<open>Fulfilment and notification\<close>

text \<open>
  \<^verbatim>\<open>fulfill_requests\<close> (lines 26 to 33). Its effects: the warnings it logs, in order, the
  number of \<^verbatim>\<open>operation.result()\<close> calls it makes, and the exception that leaves it,
  if one does. Only \<^verbatim>\<open>CloudError\<close> and \<^verbatim>\<open>TimeoutError\<close> have an \<^verbatim>\<open>except\<close> clause.
\<close>

record fulfilment =
  logged :: "string list"
  awaited :: nat
  raised :: "exn option"

fun fulfill_loop :: "'r async_operation list \<Rightarrow> fulfilment \<Rightarrow> fulfilment" where
  "fulfill_loop [] f = f"
| "fulfill_loop (operation # rest) f =
     (let f = f\<lparr>awaited := awaited f + 1\<rparr> in
      case op_result operation of
        Returns v \<Rightarrow> fulfill_loop rest f
      | Raises (CloudError message) \<Rightarrow>
          fulfill_loop rest (f\<lparr>logged := logged f @ [''Error while scaling Scale Set: '' @ message]\<rparr>)
      | Raises TimeoutError \<Rightarrow>
          fulfill_loop rest (f\<lparr>logged := logged f @ [''Timeout while scaling Scale Set'']\<rparr>)
      | Raises e \<Rightarrow> f\<lparr>raised := Some e\<rparr>)"

definition fulfill_requests :: "'r async_operation list \<Rightarrow> fulfilment" where
  "fulfill_requests async_operations =
     fulfill_loop async_operations \<lparr>logged = [], awaited = 0, raised = None\<rparr>"

text \<open>
  The outcomes that \<^verbatim>\<open>fulfill_requests\<close> has a clause for (a returned value,
  \<^verbatim>\<open>CloudError\<close>, \<^verbatim>\<open>TimeoutError\<close>), and the warning that each outcome leaves in the log.
\<close>

fun handled :: "future_result \<Rightarrow> bool" where
  "handled (Returns v) = True"
| "handled (Raises (CloudError message)) = True"
| "handled (Raises TimeoutError) = True"
| "handled (Raises e) = False"

fun warning :: "future_result \<Rightarrow> string list" where
  "warning (Raises (CloudError message)) = [''Error while scaling Scale Set: '' @ message]"
| "warning (Raises TimeoutError) = [''Timeout while scaling Scale Set'']"
| "warning r = []"

text \<open>
  The callback \<^verbatim>\<open>notify_if_scaled\<close> (lines 38 to 43), as the list of the
  \<^verbatim>\<open>cluster.notifier.notify_scale\<close> calls it makes once the future is done. The call on
  line 43 stands inside the loop of line 41: it is made once for every element of
  \<^verbatim>\<open>assigned_pods\<close>, with \<^verbatim>\<open>flat_assigned_pods\<close> as it is at that moment. When
  \<^verbatim>\<open>future.result()\<close> raises, the callback ends there.
\<close>

datatype 'r notification = NotifyScale scaling_group int "'r kube_pod list"

fun notify_loop ::
  "scaling_group \<Rightarrow> int \<Rightarrow> 'r kube_pod list \<Rightarrow> 'r kube_pod list list \<Rightarrow> 'r notification list" where
  "notify_loop group' units_requested flat_assigned_pods [] = []"
| "notify_loop group' units_requested flat_assigned_pods (instance_pods # rest) =
     (let flat_assigned_pods = flat_assigned_pods @ instance_pods in
      NotifyScale group' units_requested flat_assigned_pods
        # notify_loop group' units_requested flat_assigned_pods rest)"

definition notify_if_scaled :: "'r async_operation \<Rightarrow> 'r notification list" where
  "notify_if_scaled operation =
     (case op_result operation of
        Returns v \<Rightarrow>
          if v then notify_loop (op_group operation) (op_units_requested operation) []
                      (op_assigned_pods operation)
          else []
      | Raises e \<Rightarrow> [])"

text \<open>
  \<^verbatim>\<open>ScalingPolicy.apply\<close> (lines 48 to 52): the operations it has issued and what
  \<^verbatim>\<open>fulfill_requests\<close> did with them.
\<close>

definition scaling_policy_apply ::
  "'r world \<Rightarrow> 'r pending \<Rightarrow> scaling_group list \<Rightarrow> 'r async_operation list \<times> fulfilment" where
  "scaling_policy_apply w pending_pods asgs =
     (let async_operations =
            fold (\<lambda>selectors_hash ops. decide_num_instances w pending_pods asgs ops)
                 (pending_keys pending_pods) []
      in (async_operations, fulfill_requests async_operations))"

section \<open>The cost based policy\<close>

text \<open>
  The fields of \<^verbatim>\<open>CostBasedScalingPolicy\<close> that \<^verbatim>\<open>decide_num_instances\<close> reads and writes.
  \<open>costs_per_hour\<close> maps an instance type to its \<^verbatim>\<open>'cost-per-hour'\<close>; a type without an
  entry is a \<^verbatim>\<open>KeyError\<close>.
\<close>

record cost_policy =
  max_cost_per_hour :: rat
  start_time :: rat
  num_hours :: int
  spent_this_hour :: rat
  num_seconds_instances_used :: rat
  num_instances_tracked :: int
  costs_per_hour :: "string \<Rightarrow> rat option"

text \<open>Lines 159 to 162, with \<open>curr_time\<close> the value of \<^verbatim>\<open>time.time()\<close>.\<close>

definition new_hour :: "cost_policy \<Rightarrow> rat \<Rightarrow> cost_policy" where
  "new_hour pol curr_time =
     (if (start_time pol - curr_time) / 3600 > of_int (num_hours pol)
      then pol\<lparr>num_hours := num_hours pol + 1, spent_this_hour := 0\<rparr>
      else pol)"

text \<open>Lines 220 to 223.\<close>

definition avg_hours_used_per_instance :: "cost_policy \<Rightarrow> rat" where
  "avg_hours_used_per_instance pol =
     (if num_instances_tracked pol > 0
      then num_seconds_instances_used pol / of_int (num_instances_tracked pol) / 3600
      else 0.25)"

text \<open>
  Lines 227 to 231: \<^verbatim>\<open>for i in range(units_requested)\<close>, over the list of the values of
  \<open>i\<close> still to come. The result is the value of \<^verbatim>\<open>units_requested\<close> after the loop.
\<close>

fun budget_loop :: "cost_policy \<Rightarrow> scaling_group \<Rightarrow> rat \<Rightarrow> int \<Rightarrow> nat list \<Rightarrow> exn + int" where
  "budget_loop pol group' avg units_requested [] = Inr units_requested"
| "budget_loop pol group' avg units_requested (i # rest) =
     (case costs_per_hour pol (instance_type group') of
        None \<Rightarrow> Inl (KeyError (instance_type group'))
      | Some cost_per_hour \<Rightarrow>
          let predicted_cost = spent_this_hour pol + (of_nat i + 1) * avg * cost_per_hour in
          if predicted_cost > max_cost_per_hour pol * 0.75 then Inr (int i + 1)
          else budget_loop pol group' avg units_requested rest)"

definition budget_gate :: "cost_policy \<Rightarrow> scaling_group \<Rightarrow> int \<Rightarrow> exn + int" where
  "budget_gate pol group' units_requested =
     budget_loop pol group' (avg_hours_used_per_instance pol) units_requested
       [0..<nat units_requested]"

text \<open>
  The body of \<^verbatim>\<open>for group in groups\<close> of the cost based policy, lines 176 to 237:
  \<open>Inl\<close> an exception, \<open>Inr None\<close> a \<^verbatim>\<open>continue\<close>, \<open>Inr (Some operation)\<close> a scale call.
\<close>

definition cost_scale_group ::
  "'r world \<Rightarrow> cost_policy \<Rightarrow> 'r kube_pod list \<Rightarrow> scaling_group \<Rightarrow>
   exn + 'r async_operation option" where
  "cost_scale_group w pol pods group' =
     (case units_for_group w group' pods of
        None \<Rightarrow> Inr None
      | Some (assigned_pods, units_requested) \<Rightarrow>
          (case budget_gate pol group' units_requested of
             Inl e \<Rightarrow> Inl e
           | Inr units_requested \<Rightarrow>
               let new_capacity = actual_capacity group' + units_requested
               in Inr (Some (create_async_operation w group' assigned_pods new_capacity
                               units_requested))))"

text \<open>
  The two loops of lines 166 and 175. An exception ends both; the operations issued
  before it stay in \<^verbatim>\<open>async_operations\<close>.
\<close>

fun cost_scale_groups ::
  "'r world \<Rightarrow> cost_policy \<Rightarrow> 'r kube_pod list \<Rightarrow> scaling_group list \<Rightarrow>
   'r async_operation list \<Rightarrow> 'r async_operation list \<times> exn option" where
  "cost_scale_groups w pol pods [] async_operations = (async_operations, None)"
| "cost_scale_groups w pol pods (group' # groups) async_operations =
     (case cost_scale_group w pol pods group' of
        Inl e \<Rightarrow> (async_operations, Some e)
      | Inr None \<Rightarrow> cost_scale_groups w pol pods groups async_operations
      | Inr (Some operation) \<Rightarrow>
          cost_scale_groups w pol pods groups (async_operations @ [operation]))"

fun cost_scale_hashes ::
  "'r world \<Rightarrow> cost_policy \<Rightarrow> 'r pending \<Rightarrow> scaling_group list \<Rightarrow> string list \<Rightarrow>
   'r async_operation list \<Rightarrow> 'r async_operation list \<times> exn option" where
  "cost_scale_hashes w pol pending_pods asgs [] async_operations = (async_operations, None)"
| "cost_scale_hashes w pol pending_pods asgs (selectors_hash # rest) async_operations =
     (let pods = pending_get pending_pods selectors_hash;
          groups = prioritize_groups w (get_groups_for_hash w asgs selectors_hash)
      in case cost_scale_groups w pol pods groups async_operations of
           (ops, Some e) \<Rightarrow> (ops, Some e)
         | (ops, None) \<Rightarrow> cost_scale_hashes w pol pending_pods asgs rest ops)"

text \<open>\<^verbatim>\<open>CostBasedScalingPolicy.decide_num_instances\<close>, lines 158 to 237.\<close>

definition cost_decide_num_instances ::
  "'r world \<Rightarrow> cost_policy \<Rightarrow> rat \<Rightarrow> 'r pending \<Rightarrow> scaling_group list \<Rightarrow>
   'r async_operation list \<Rightarrow> cost_policy \<times> 'r async_operation list \<times> exn option" where
  "cost_decide_num_instances w pol curr_time pending_pods asgs async_operations =
     (let pol = new_hour pol curr_time
      in (pol, cost_scale_hashes w pol pending_pods asgs (pending_keys pending_pods)
                 async_operations))"

section \<open>The growth based policy\<close>

record growth_policy =
  trigger_growth_factor :: rat
  num_triggers_to_provision :: int
  num_triggers :: int
  last_num_pods :: int

text \<open>\<^verbatim>\<open>GrowthBasedScalingPolicy.__init__\<close>, lines 242 to 247.\<close>

definition growth_policy_init :: "rat \<Rightarrow> int \<Rightarrow> growth_policy" where
  "growth_policy_init trigger_growth_factor' num_triggers_to_provision' =
     \<lparr>trigger_growth_factor = trigger_growth_factor',
      num_triggers_to_provision = num_triggers_to_provision',
      num_triggers = 0, last_num_pods = 0\<rparr>"

text \<open>Line 250: \<^verbatim>\<open>sum(len(podlist) for podlist in pending_pods.values())\<close>.\<close>

definition num_pending_pods :: "'r pending \<Rightarrow> int" where
  "num_pending_pods pending_pods =
     sum_list (map (\<lambda>selectors_hash. int (length (pending_get pending_pods selectors_hash)))
                   (pending_keys pending_pods))"

text \<open>Lines 251 to 257: the update of the two counters.\<close>

definition count_trigger :: "growth_policy \<Rightarrow> int \<Rightarrow> growth_policy" where
  "count_trigger pol num_pending =
     (if of_int num_pending > trigger_growth_factor pol * of_int (last_num_pods pol)
      then pol\<lparr>num_triggers := num_triggers pol + 1, last_num_pods := num_pending\<rparr>
      else if of_int num_pending < of_int (last_num_pods pol) * (0.75 :: rat)
           then pol\<lparr>num_triggers := 0, last_num_pods := 0\<rparr>
           else pol)"

text \<open>
  \<^verbatim>\<open>GrowthBasedScalingPolicy.apply\<close>, lines 249 to 268. The second component is \<open>None\<close>
  when the call does not reach line 262, and otherwise what lines 264 to 268 (the text
  of the base policy's \<^verbatim>\<open>apply\<close>) do.
\<close>

definition growth_apply ::
  "'r world \<Rightarrow> growth_policy \<Rightarrow> 'r pending \<Rightarrow> scaling_group list \<Rightarrow>
   growth_policy \<times> ('r async_operation list \<times> fulfilment) option" where
  "growth_apply w pol pending_pods asgs =
     (let pol = count_trigger pol (num_pending_pods pending_pods) in
      if num_triggers pol \<ge> num_triggers_to_provision pol
      then (pol\<lparr>num_triggers := 0, last_num_pods := 0\<rparr>,
            Some (scaling_policy_apply w pending_pods asgs))
      else (pol, None))"

text \<open>
  Successive decision cycles: \<^verbatim>\<open>apply\<close> called once for each element of a list of
  \<^verbatim>\<open>pending_pods\<close>, the policy object kept from one call to the next. The result tells for
  each call whether it ran the scaling decision, and gives the policy after the last call.
\<close>

fun growth_cycles ::
  "'r world \<Rightarrow> growth_policy \<Rightarrow> 'r pending list \<Rightarrow> scaling_group list \<Rightarrow>
   bool list \<times> growth_policy" where
  "growth_cycles w pol [] asgs = ([], pol)"
| "growth_cycles w pol (pending_pods # rest) asgs =
     (case growth_apply w pol pending_pods asgs of
        (pol', outcome) \<Rightarrow>
          (case growth_cycles w pol' rest asgs of
             (flags, pol'') \<Rightarrow> ((outcome \<noteq> None) # flags, pol'')))"

section \<open>Concrete inputs\<close>

text \<open>
  A world for the examples: a resource vector is a single integer (say the cpu), possible
  when it is not negative; a fresh unit has capacity 2; pods with a uid of 100 or more are
  not tolerated; no group is timed out; a group serves the selectors hash that is its
  name; every scale call succeeds.
\<close>

definition example_world :: "int \<Rightarrow> int world" where
  "example_world over_provision' =
     \<lparr>possible = (\<lambda>r. 0 \<le> r), subtract = (\<lambda>a b. a - b),
      get_unit_capacity = (\<lambda>g. 2),
      is_taints_tolerated = (\<lambda>g p. pod_uid p < 100),
      group_is_timed_out = (\<lambda>g. False), timeouts_is_timed_out = (\<lambda>g. False),
      get_groups_for_hash = (\<lambda>asgs h. filter (\<lambda>g. group_name g = h) asgs),
      prioritize_groups = (\<lambda>groups. groups),
      over_provision = over_provision',
      scale = (\<lambda>g n. Returns True)\<rparr>"

definition example_pod :: "nat \<Rightarrow> int \<Rightarrow> int kube_pod" where
  "example_pod uid r = \<lparr>pod_uid = uid, resources = r\<rparr>"

definition example_group :: "string \<Rightarrow> int \<Rightarrow> int \<Rightarrow> int \<Rightarrow> scaling_group" where
  "example_group gname actual desired maxs =
     \<lparr>group_name = gname, instance_type = ''Standard_D2'', max_size = maxs,
      desired_capacity = desired, actual_capacity = actual, unschedulable_nodes = []\<rparr>"

definition example_operation :: "int kube_pod list list \<Rightarrow> future_result \<Rightarrow> int async_operation" where
  "example_operation assigned_pods outcome =
     \<lparr>op_group = example_group ''a'' 0 0 10, op_new_capacity = 2, op_units_requested = 2,
      op_assigned_pods = assigned_pods, op_result = outcome\<rparr>"

definition example_cost_policy :: "rat \<Rightarrow> rat \<Rightarrow> rat \<Rightarrow> cost_policy" where
  "example_cost_policy max_cost spent cost =
     \<lparr>max_cost_per_hour = max_cost, start_time = 0, num_hours = 0, spent_this_hour = spent,
      num_seconds_instances_used = 0, num_instances_tracked = 0,
      costs_per_hour = [''Standard_D2'' \<mapsto> cost]\<rparr>"

text \<open>\<open>n\<close> pending pods under the one selectors hash \<open>''a''\<close>, each asking for 1.\<close>

definition example_pending :: "nat \<Rightarrow> int pending" where
  "example_pending n = [(''a'', map (\<lambda>uid. example_pod uid 1) [0..<n])]"

section \<open>The allocation loop is first fit and safe\<close>

lemma first_fit_enumerate_None:
  "first_fit w r (enumerate k xs) = None \<longleftrightarrow> (\<forall>x\<in>set xs. \<not> possible w (subtract w x r))"
  by (induction xs arbitrary: k) auto

lemma first_fit_enumerate_Some:
  "first_fit w r (enumerate k xs) = Some (i, inst) \<Longrightarrow>
     k \<le> i \<and> i < k + length xs \<and> inst = xs ! (i - k) \<and> possible w (subtract w inst r)
     \<and> (\<forall>j. k \<le> j \<and> j < i \<longrightarrow> \<not> possible w (subtract w (xs ! (j - k)) r))"
proof (induction xs arbitrary: k)
  case Nil
  then show ?case by simp
next
  case (Cons x xs)
  show ?case
  proof (cases "possible w (subtract w x r)")
    case True
    with Cons.prems show ?thesis by simp
  next
    case False
    with Cons.prems have "first_fit w r (enumerate (Suc k) xs) = Some (i, inst)" by simp
    from Cons.IH[OF this] False show ?thesis
      by (auto simp: nth_Cons' Suc_diff_le le_Suc_eq)
  qed
qed

lemma first_fit_least:
  assumes "first_fit w r (enumerate 0 xs) = Some (i, inst)"
  shows "i = (LEAST j. j < length xs \<and> possible w (subtract w (xs ! j) r)) \<and> inst = xs ! i
         \<and> i < length xs \<and> possible w (subtract w (xs ! i) r)"
proof -
  from first_fit_enumerate_Some[OF assms]
  have a: "i < length xs" "inst = xs ! i" "possible w (subtract w (xs ! i) r)"
    and b: "\<forall>j<i. \<not> possible w (subtract w (xs ! j) r)" by auto
  have "(LEAST j. j < length xs \<and> possible w (subtract w (xs ! j) r)) = i"
    by (rule Least_equality) (use a b in \<open>auto simp: not_less[symmetric]\<close>)
  with a show ?thesis by simp
qed

lemma residual_snoc: "residual w u (ps @ [p]) = subtract w (residual w u ps) (resources p)"
  by (simp add: residual_def)

lemma residual_single: "residual w u [p] = subtract w u (resources p)"
  by (simp add: residual_def)

lemma set_concat_update:
  "i < length xss \<Longrightarrow> set (concat (xss[i := xss ! i @ [x]])) = insert x (set (concat xss))"
proof -
  assume i: "i < length xss"
  have a: "xss = take i xss @ xss ! i # drop (Suc i) xss"
    using i by (rule id_take_nth_drop)
  have b: "xss[i := xss ! i @ [x]] = take i xss @ (xss ! i @ [x]) # drop (Suc i) xss"
    using i by (rule upd_conv_take_nth_drop)
  have "set (concat xss) = set (concat (take i xss)) \<union> set (xss ! i) \<union> set (concat (drop (Suc i) xss))"
    by (subst a) (simp add: Un_assoc)
  moreover have "set (concat (xss[i := xss ! i @ [x]])) =
      set (concat (take i xss)) \<union> (insert x (set (xss ! i))) \<union> set (concat (drop (Suc i) xss))"
    by (subst b) (simp add: Un_assoc)
  ultimately show ?thesis by blast
qed

lemma place_pod_ok:
  assumes ok: "packing_ok w group' pods st" and mem: "fst item \<in> set pods"
  shows "packing_ok w group' pods (place_pod w group' (get_unit_capacity w group') item st)"
proof -
  obtain pod acc where item: "item = (pod, acc)" by (cases item)
  obtain nir ap where st: "st = (nir, ap)" by (cases st)
  let ?u = "get_unit_capacity w group'"
  let ?r = "resources pod"
  from ok st have nir: "nir = map (residual w ?u) ap"
    and feas: "\<forall>r\<in>set nir. possible w r"
    and ne: "\<forall>ps\<in>set ap. ps \<noteq> []"
    and pods: "\<forall>p\<in>set (concat ap). p \<in> set pods \<and> is_taints_tolerated w group' p
                 \<and> possible w (subtract w ?u (resources p))"
    by (simp_all add: packing_ok_def)
  show ?thesis
  proof (cases "acc \<or> \<not> possible w (subtract w ?u ?r) \<or> \<not> is_taints_tolerated w group' pod")
    case True
    then have "place_pod w group' ?u item st = st"
      unfolding place_pod_def item st by simp
    with ok show ?thesis by simp
  next
    case False
    then have fits: "possible w (subtract w ?u ?r)" and tol: "is_taints_tolerated w group' pod"
      and nacc: "\<not> acc" by auto
    from mem item have pmem: "pod \<in> set pods" by simp
    show ?thesis
    proof (cases "first_fit w ?r (enumerate 0 nir)")
      case None
      then have step: "place_pod w group' ?u item st = (nir @ [subtract w ?u ?r], ap @ [[pod]])"
        unfolding place_pod_def item st using False by simp
      show ?thesis unfolding step packing_ok_def
        using nir feas ne pods fits tol pmem by (auto simp: residual_single)
    next
      case (Some a)
      obtain i inst where a: "a = (i, inst)" by (cases a)
      from first_fit_least[OF Some[unfolded a]]
      have i: "i < length nir" and inst: "inst = nir ! i"
        and pi: "possible w (subtract w (nir ! i) ?r)" by auto
      from i nir have i': "i < length ap" by simp
      have step: "place_pod w group' ?u item st =
                    (nir[i := subtract w (nir ! i) ?r], ap[i := ap ! i @ [pod]])"
        unfolding place_pod_def item st using False Some a inst by simp
      have 1: "nir[i := subtract w (nir ! i) ?r] = map (residual w ?u) (ap[i := ap ! i @ [pod]])"
        using nir i' by (simp add: map_update residual_snoc)
      have 2: "\<forall>r\<in>set (nir[i := subtract w (nir ! i) ?r]). possible w r"
        using feas pi by (auto dest!: set_update_subset_insert[THEN subsetD])
      have 3: "\<forall>ps\<in>set (ap[i := ap ! i @ [pod]]). ps \<noteq> []"
        using ne by (auto dest!: set_update_subset_insert[THEN subsetD])
      have 4: "\<forall>p\<in>set (concat (ap[i := ap ! i @ [pod]])). p \<in> set pods \<and> is_taints_tolerated w group' p
                 \<and> possible w (subtract w ?u (resources p))"
        unfolding set_concat_update[OF i'] using pods fits tol pmem by blast
      show ?thesis unfolding step packing_ok_def using 1 2 3 4 by simp
    qed
  qed
qed

lemma place_pods_ok:
  "packing_ok w group' pods st \<Longrightarrow> fst ` set items \<subseteq> set pods \<Longrightarrow>
   packing_ok w group' pods (place_pods w group' items st)"
  unfolding place_pods_def
  by (induction items arbitrary: st) (simp_all add: place_pod_ok)

lemma keys_accounted_pods_aux:
  "fst ` set (fold (\<lambda>p d. AList.update p False d) pods d0) = set pods \<union> fst ` set d0"
  by (induction pods arbitrary: d0) (auto simp: dom_update)

lemma keys_accounted_pods: "fst ` set (accounted_pods pods) = set pods"
  by (simp add: accounted_pods_def keys_accounted_pods_aux)

lemma packing_ok_empty: "packing_ok w group' pods ([], [])"
  by (simp add: packing_ok_def)

lemma place_pods_take_ok:
  "packing_ok w group' pods (place_pods w group' (take n (accounted_pods pods)) ([], []))"
proof (rule place_pods_ok[OF packing_ok_empty])
  have "set (take n (accounted_pods pods)) \<subseteq> set (accounted_pods pods)" by (rule set_take_subset)
  then show "fst ` set (take n (accounted_pods pods)) \<subseteq> set pods"
    using keys_accounted_pods[of pods] by blast
qed

lemma place_pod_characterisation:
  "place_pod w group' u (pod, acc) (nir, ap) =
     (if acc \<or> \<not> possible w (subtract w u (resources pod)) \<or> \<not> is_taints_tolerated w group' pod
      then (nir, ap)
      else if \<exists>i<length nir. possible w (subtract w (nir ! i) (resources pod))
      then (let i = (LEAST i. i < length nir \<and> possible w (subtract w (nir ! i) (resources pod)))
            in (nir[i := subtract w (nir ! i) (resources pod)], ap[i := ap ! i @ [pod]]))
      else (nir @ [subtract w u (resources pod)], ap @ [[pod]]))"
proof (cases "acc \<or> \<not> possible w (subtract w u (resources pod)) \<or> \<not> is_taints_tolerated w group' pod")
  case True
  then show ?thesis by (simp add: place_pod_def)
next
  case no_skip: False
  let ?fits = "\<lambda>i. i < length nir \<and> possible w (subtract w (nir ! i) (resources pod))"
  show ?thesis
  proof (cases "first_fit w (resources pod) (enumerate 0 nir)")
    case None
    then have "\<not> (\<exists>i. ?fits i)"
      by (auto simp: first_fit_enumerate_None)
    then have "\<not> (\<exists>i<length nir. possible w (subtract w (nir ! i) (resources pod)))"
      by blast
    then show ?thesis
      unfolding place_pod_def using no_skip None by (simp only: if_False prod.case option.case)
  next
    case (Some a)
    obtain i inst where a: "a = (i, inst)" by (cases a)
    from first_fit_least[OF Some[unfolded a]]
    have l: "(LEAST j. ?fits j) = i"
      and inst: "inst = nir ! i" and i: "i < length nir"
      and p: "possible w (subtract w (nir ! i) (resources pod))" by auto
    from i p have ex: "\<exists>i<length nir. possible w (subtract w (nir ! i) (resources pod))" by blast
    show ?thesis
      unfolding place_pod_def l Let_def using no_skip Some a inst ex
      by (simp only: if_False if_True prod.case option.case)
  qed
qed

text \<open>
  C7. The allocation loop is first fit, and it is safe after any number \<open>n\<close> of its
  iterations. First conjunct, one iteration on any state: a pod that a fresh unit cannot
  hold alone, or that the group does not tolerate, leaves the state as it is; any other
  pod goes to the first bin, in creation order, whose residual stays possible once the
  pod's resources are subtracted, and only when no bin is such does it open a new bin.
  Second conjunct, the state after \<open>n\<close> iterations of the loop for any group and pods:
  every bin holds the residual of the pods assigned to it, every residual is possible,
  and every assigned pod is one of the pods given, is tolerated by the group, and fits
  a fresh unit alone.
\<close>

theorem bin_packing_first_fit_safe:
  "place_pod w group' u (pod, acc) (nir, ap) =
     (if acc \<or> \<not> possible w (subtract w u (resources pod)) \<or> \<not> is_taints_tolerated w group' pod
      then (nir, ap)
      else if \<exists>i<length nir. possible w (subtract w (nir ! i) (resources pod))
      then (let i = (LEAST i. i < length nir \<and> possible w (subtract w (nir ! i) (resources pod)))
            in (nir[i := subtract w (nir ! i) (resources pod)], ap[i := ap ! i @ [pod]]))
      else (nir @ [subtract w u (resources pod)], ap @ [[pod]]))
   \<and> (case place_pods w group' (take n (accounted_pods pods)) ([], []) of
        (new_instance_resources, assigned_pods) \<Rightarrow>
          new_instance_resources = map (residual w (get_unit_capacity w group')) assigned_pods
          \<and> (\<forall>r\<in>set new_instance_resources. possible w r)
          \<and> (\<forall>p\<in>set (concat assigned_pods).
                p \<in> set pods \<and> is_taints_tolerated w group' p
                \<and> possible w (subtract w (get_unit_capacity w group') (resources p))))"
proof
  show "place_pod w group' u (pod, acc) (nir, ap) =
     (if acc \<or> \<not> possible w (subtract w u (resources pod)) \<or> \<not> is_taints_tolerated w group' pod
      then (nir, ap)
      else if \<exists>i<length nir. possible w (subtract w (nir ! i) (resources pod))
      then (let i = (LEAST i. i < length nir \<and> possible w (subtract w (nir ! i) (resources pod)))
            in (nir[i := subtract w (nir ! i) (resources pod)], ap[i := ap ! i @ [pod]]))
      else (nir @ [subtract w u (resources pod)], ap @ [[pod]]))"
    by (rule place_pod_characterisation)
next
  from place_pods_take_ok[of w group' pods n]
  show "case place_pods w group' (take n (accounted_pods pods)) ([], []) of
        (new_instance_resources, assigned_pods) \<Rightarrow>
          new_instance_resources = map (residual w (get_unit_capacity w group')) assigned_pods
          \<and> (\<forall>r\<in>set new_instance_resources. possible w r)
          \<and> (\<forall>p\<in>set (concat assigned_pods).
                p \<in> set pods \<and> is_taints_tolerated w group' p
                \<and> possible w (subtract w (get_unit_capacity w group') (resources p)))"
    by (simp add: packing_ok_def split: prod.splits)
qed

lemma example_allocation:
  "place_pods (example_world 0) (example_group ''a'' 0 0 10)
     (take 5 (accounted_pods [example_pod 1 1, example_pod 2 1, example_pod 3 1,
                              example_pod 4 5, example_pod 100 1, example_pod 1 1])) ([], [])
   = ([0, 1], [[example_pod 1 1, example_pod 2 1], [example_pod 3 1]])"
  by (simp add: place_pods_def place_pod_def accounted_pods_def example_world_def
      example_pod_def enumerate_eq_zip)

theorem bin_packing_first_fit_safe_witness:
  "place_pods (example_world 0) (example_group ''a'' 0 0 10)
     (take 5 (accounted_pods [example_pod 1 1, example_pod 2 1, example_pod 3 1,
                              example_pod 4 5, example_pod 100 1, example_pod 1 1])) ([], [])
     = ([0, 1], [[example_pod 1 1, example_pod 2 1], [example_pod 3 1]])
   \<and> [0, 1] = map (residual (example_world 0) 2)
                 [[example_pod 1 1, example_pod 2 1], [example_pod 3 1]]
   \<and> possible (example_world 0) 0 \<and> possible (example_world 0) 1
   \<and> is_taints_tolerated (example_world 0) (example_group ''a'' 0 0 10) (example_pod 3 1)
   \<and> possible (example_world 0) (subtract (example_world 0) 2 (resources (example_pod 3 1)))
   \<and> \<not> possible (example_world 0) (subtract (example_world 0) 2 (resources (example_pod 4 5)))
   \<and> \<not> is_taints_tolerated (example_world 0) (example_group ''a'' 0 0 10) (example_pod 100 1)"
proof -
  have u: "get_unit_capacity (example_world 0) (example_group ''a'' 0 0 10) = 2"
    by (simp add: example_world_def)
  have rest: "\<not> possible (example_world 0) (subtract (example_world 0) 2 (resources (example_pod 4 5)))
      \<and> \<not> is_taints_tolerated (example_world 0) (example_group ''a'' 0 0 10) (example_pod 100 1)"
    by (simp add: example_world_def example_pod_def)
  from bin_packing_first_fit_safe[where w = "example_world 0"
      and group' = "example_group ''a'' 0 0 10" and n = 5
      and pods = "[example_pod 1 1, example_pod 2 1, example_pod 3 1,
                   example_pod 4 5, example_pod 100 1, example_pod 1 1]"]
  show ?thesis
    unfolding example_allocation u using rest by simp
qed

section \<open>The capacity that the base policy asks for\<close>

lemma allocate_ok: "packing_ok w group' pods (allocate w group' pods)"
  unfolding allocate_def
  by (rule place_pods_ok[OF packing_ok_empty]) (simp add: keys_accounted_pods)

lemma allocate_lengths:
  "allocate w group' pods = (new_instance_resources, assigned_pods) \<Longrightarrow>
   length assigned_pods = length new_instance_resources"
  using allocate_ok[of w group' pods] by (simp add: packing_ok_def)

text \<open>
  What the body of the group loop asks for, when it asks: at least one bin was opened, and
  the units requested are the smaller of the units needed (the bins plus the over
  provision) and the room of the branch taken, \<open>desired_capacity - actual_capacity\<close>
  for a timed out group and \<open>max_size - actual_capacity\<close> otherwise.
\<close>

lemma units_for_group_exact:
  assumes "units_for_group w group' pods = Some (assigned_pods, units_requested)"
  shows "1 \<le> length assigned_pods"
    and "units_requested =
           min (int (length assigned_pods) + over_provision w)
               (if timeouts_is_timed_out w group' \<or> group_is_timed_out w group'
                then desired_capacity group' - actual_capacity group'
                else max_size group' - actual_capacity group')"
proof -
  obtain nir ap where al: "allocate w group' pods = (nir, ap)" by (cases "allocate w group' pods")
  from allocate_lengths[OF al] have len: "length ap = length nir" .
  from assms al have ne: "nir \<noteq> []" and ap: "assigned_pods = ap"
    by (auto simp: units_for_group_def Let_def split: if_splits)
  from ne len ap show "1 \<le> length assigned_pods"
    by (cases nir) simp_all
  from assms al len ap show "units_requested =
           min (int (length assigned_pods) + over_provision w)
               (if timeouts_is_timed_out w group' \<or> group_is_timed_out w group'
                then desired_capacity group' - actual_capacity group'
                else max_size group' - actual_capacity group')"
    by (auto simp: units_for_group_def Let_def split: if_splits)
qed

lemma scale_group_set:
  "operation \<in> set (scale_group w pods group' ops) \<Longrightarrow>
   operation \<in> set ops \<or>
   (\<exists>assigned_pods units_requested.
      units_for_group w group' pods = Some (assigned_pods, units_requested)
      \<and> operation = create_async_operation w group' assigned_pods
                       (actual_capacity group' + units_requested) units_requested)"
  by (auto simp: scale_group_def Let_def split: option.splits)

lemma scale_groups_set:
  "operation \<in> set (fold (scale_group w pods) groups ops) \<Longrightarrow>
   operation \<in> set ops \<or>
   (\<exists>group' assigned_pods units_requested.
      units_for_group w group' pods = Some (assigned_pods, units_requested)
      \<and> operation = create_async_operation w group' assigned_pods
                       (actual_capacity group' + units_requested) units_requested)"
proof (induction groups arbitrary: ops)
  case Nil
  then show ?case by simp
next
  case (Cons g groups)
  from Cons.prems have "operation \<in> set (fold (scale_group w pods) groups (scale_group w pods g ops))"
    by simp
  from Cons.IH[OF this] show ?case
    using scale_group_set[of operation w pods g ops] by blast
qed

lemma decide_num_instances_set_aux:
  "operation \<in> set (fold (\<lambda>selectors_hash ops.
             let pods = pending_get pending_pods selectors_hash;
                 groups = prioritize_groups w (get_groups_for_hash w asgs selectors_hash)
             in fold (scale_group w pods) groups ops) hashes ops) \<Longrightarrow>
   operation \<in> set ops \<or>
   (\<exists>pods group' assigned_pods units_requested.
      units_for_group w group' pods = Some (assigned_pods, units_requested)
      \<and> operation = create_async_operation w group' assigned_pods
                       (actual_capacity group' + units_requested) units_requested)"
proof (induction hashes arbitrary: ops)
  case Nil
  then show ?case by simp
next
  case (Cons h hashes)
  let ?ops = "fold (scale_group w (pending_get pending_pods h))
                (prioritize_groups w (get_groups_for_hash w asgs h)) ops"
  from Cons.prems have "operation \<in> set (fold (\<lambda>selectors_hash ops.
             let pods = pending_get pending_pods selectors_hash;
                 groups = prioritize_groups w (get_groups_for_hash w asgs selectors_hash)
             in fold (scale_group w pods) groups ops) hashes ?ops)"
    by (simp add: Let_def)
  from Cons.IH[OF this] show ?case
    using scale_groups_set[of operation w "pending_get pending_pods h"
        "prioritize_groups w (get_groups_for_hash w asgs h)" ops] by blast
qed

lemma decide_num_instances_set:
  "operation \<in> set (decide_num_instances w pending_pods asgs ops) \<Longrightarrow>
   operation \<in> set ops \<or>
   (\<exists>pods group' assigned_pods units_requested.
      units_for_group w group' pods = Some (assigned_pods, units_requested)
      \<and> operation = create_async_operation w group' assigned_pods
                       (actual_capacity group' + units_requested) units_requested)"
  unfolding decide_num_instances_def by (rule decide_num_instances_set_aux)

lemma example_decide_negative_over_provision:
  "decide_num_instances (example_world (- 2)) (example_pending 1) [example_group ''a'' 3 3 10] []
   = [\<lparr>op_group = example_group ''a'' 3 3 10, op_new_capacity = 2, op_units_requested = - 1,
        op_assigned_pods = [[example_pod 0 1]], op_result = Returns True\<rparr>]"
  by (simp add: decide_num_instances_def pending_keys_def pending_get_def example_pending_def
      scale_group_def units_for_group_def allocate_def place_pods_def place_pod_def
      accounted_pods_def create_async_operation_def example_world_def example_group_def
      example_pod_def Let_def)

lemma example_decide_three_pods:
  "decide_num_instances (example_world 0) (example_pending 3) [example_group ''a'' 0 0 10] []
   = [\<lparr>op_group = example_group ''a'' 0 0 10, op_new_capacity = 2, op_units_requested = 2,
        op_assigned_pods = [[example_pod 0 1, example_pod 1 1], [example_pod 2 1]],
        op_result = Returns True\<rparr>]"
  by (simp add: decide_num_instances_def pending_keys_def pending_get_def example_pending_def
      scale_group_def units_for_group_def allocate_def place_pods_def place_pod_def
      accounted_pods_def create_async_operation_def example_world_def example_group_def
      example_pod_def Let_def enumerate_eq_zip upt_rec)

text \<open>
  C1, as stated, fails: \<^verbatim>\<open>cluster.over_provision\<close> is added to the number of bins with no
  check of its sign. With an over provision of \<open>-2\<close>, one pending pod and a group with
  \<open>actual_capacity = desired_capacity = 3\<close> and \<open>max_size = 10\<close>, the policy asks
  \<^verbatim>\<open>group.scale\<close> for a capacity of 2, below the actual capacity.
\<close>

theorem new_capacity_below_actual_counterexample:
  "decide_num_instances (example_world (- 2)) (example_pending 1) [example_group ''a'' 3 3 10] []
     = [\<lparr>op_group = example_group ''a'' 3 3 10, op_new_capacity = 2, op_units_requested = - 1,
          op_assigned_pods = [[example_pod 0 1]], op_result = Returns True\<rparr>]
   \<and> actual_capacity (example_group ''a'' 3 3 10) \<le> desired_capacity (example_group ''a'' 3 3 10)
   \<and> desired_capacity (example_group ''a'' 3 3 10) \<le> max_size (example_group ''a'' 3 3 10)
   \<and> 2 < actual_capacity (example_group ''a'' 3 3 10)"
  using example_decide_negative_over_provision by (simp add: example_group_def)

text \<open>
  C1, amended. For every operation that \<^verbatim>\<open>decide_num_instances\<close> of the base policy
  issues for a group with \<open>actual_capacity \<le> desired_capacity \<le> max_size\<close>, the new
  capacity passed to \<^verbatim>\<open>group.scale\<close> is \<open>actual_capacity\<close> plus the smaller of the units
  needed (the number of bins plus \<^verbatim>\<open>cluster.over_provision\<close>) and the cap of the branch
  taken: \<open>desired_capacity - actual_capacity\<close> in the timed out branch,
  \<open>max_size - actual_capacity\<close> in the normal branch. So it is never greater than
  \<open>desired_capacity\<close> in the timed out branch and never greater than \<open>max_size\<close> in
  either branch. It is never less than \<open>actual_capacity\<close> except when the number of bins
  plus the over provision is negative; at least one bin is open whenever a scale call is
  made, so it is never less than \<open>actual_capacity\<close> when the over provision is \<open>-1\<close> or
  more.
\<close>

theorem new_capacity_within_bounds:
  assumes "operation \<in> set (decide_num_instances w pending_pods asgs [])"
    and "actual_capacity (op_group operation) \<le> desired_capacity (op_group operation)"
    and "desired_capacity (op_group operation) \<le> max_size (op_group operation)"
  shows "op_new_capacity operation =
           actual_capacity (op_group operation)
           + min (int (length (op_assigned_pods operation)) + over_provision w)
                 (if timeouts_is_timed_out w (op_group operation)
                     \<or> group_is_timed_out w (op_group operation)
                  then desired_capacity (op_group operation) - actual_capacity (op_group operation)
                  else max_size (op_group operation) - actual_capacity (op_group operation))
     \<and> (timeouts_is_timed_out w (op_group operation) \<or> group_is_timed_out w (op_group operation)
          \<longrightarrow> op_new_capacity operation \<le> desired_capacity (op_group operation))
     \<and> op_new_capacity operation \<le> max_size (op_group operation)
     \<and> (actual_capacity (op_group operation) \<le> op_new_capacity operation
          \<longleftrightarrow> 0 \<le> int (length (op_assigned_pods operation)) + over_provision w)
     \<and> 1 \<le> length (op_assigned_pods operation)
     \<and> (- 1 \<le> over_provision w
          \<longrightarrow> actual_capacity (op_group operation) \<le> op_new_capacity operation)"
proof -
  from decide_num_instances_set[OF assms(1)]
  obtain pods group' assigned_pods units_requested where
    u: "units_for_group w group' pods = Some (assigned_pods, units_requested)"
    and op: "operation = create_async_operation w group' assigned_pods
                           (actual_capacity group' + units_requested) units_requested"
    by auto
  from op have g: "op_group operation = group'"
    and c: "op_new_capacity operation = actual_capacity group' + units_requested"
    and p: "op_assigned_pods operation = assigned_pods"
    by (simp_all add: create_async_operation_def)
  note e = units_for_group_exact[OF u]
  from assms(2,3) have a: "actual_capacity group' \<le> desired_capacity group'"
    and d: "desired_capacity group' \<le> max_size group'" unfolding g by simp_all
  show ?thesis
    unfolding g c p using e a d by (auto simp: min_def)
qed

lemma example_decide_timed_out:
  "decide_num_instances ((example_world 0)\<lparr>group_is_timed_out := \<lambda>g. True\<rparr>) (example_pending 3)
     [(example_group ''a'' 1 2 10)\<lparr>unschedulable_nodes := [''node-1'']\<rparr>] []
   = [\<lparr>op_group = (example_group ''a'' 1 2 10)\<lparr>unschedulable_nodes := [''node-1'']\<rparr>,
        op_new_capacity = 2, op_units_requested = 1,
        op_assigned_pods = [[example_pod 0 1, example_pod 1 1], [example_pod 2 1]],
        op_result = Returns True\<rparr>]"
  by (simp add: decide_num_instances_def pending_keys_def pending_get_def example_pending_def
      scale_group_def units_for_group_def allocate_def place_pods_def place_pod_def
      accounted_pods_def create_async_operation_def example_world_def example_group_def
      example_pod_def Let_def enumerate_eq_zip upt_rec)

theorem new_capacity_within_bounds_witness:
  "\<lparr>op_group = example_group ''a'' 0 0 10, op_new_capacity = 2, op_units_requested = 2,
     op_assigned_pods = [[example_pod 0 1, example_pod 1 1], [example_pod 2 1]],
     op_result = Returns True\<rparr>
     \<in> set (decide_num_instances (example_world 0) (example_pending 3)
              [example_group ''a'' 0 0 10] [])
   \<and> actual_capacity (example_group ''a'' 0 0 10) \<le> desired_capacity (example_group ''a'' 0 0 10)
   \<and> desired_capacity (example_group ''a'' 0 0 10) \<le> max_size (example_group ''a'' 0 0 10)
   \<and> \<not> timeouts_is_timed_out (example_world 0) (example_group ''a'' 0 0 10)
   \<and> \<not> group_is_timed_out (example_world 0) (example_group ''a'' 0 0 10)
   \<and> - 1 \<le> over_provision (example_world 0)
   \<and> (2::int) = actual_capacity (example_group ''a'' 0 0 10)
                 + min (2 + over_provision (example_world 0))
                       (max_size (example_group ''a'' 0 0 10)
                        - actual_capacity (example_group ''a'' 0 0 10))
   \<and> (2::int) \<le> max_size (example_group ''a'' 0 0 10)
   \<and> actual_capacity (example_group ''a'' 0 0 10) \<le> 2
   \<and> \<lparr>op_group = (example_group ''a'' 1 2 10)\<lparr>unschedulable_nodes := [''node-1'']\<rparr>,
       op_new_capacity = 2, op_units_requested = 1,
       op_assigned_pods = [[example_pod 0 1, example_pod 1 1], [example_pod 2 1]],
       op_result = Returns True\<rparr>
     \<in> set (decide_num_instances ((example_world 0)\<lparr>group_is_timed_out := \<lambda>g. True\<rparr>)
              (example_pending 3)
              [(example_group ''a'' 1 2 10)\<lparr>unschedulable_nodes := [''node-1'']\<rparr>] [])
   \<and> group_is_timed_out ((example_world 0)\<lparr>group_is_timed_out := \<lambda>g. True\<rparr>)
       ((example_group ''a'' 1 2 10)\<lparr>unschedulable_nodes := [''node-1'']\<rparr>)
   \<and> actual_capacity ((example_group ''a'' 1 2 10)\<lparr>unschedulable_nodes := [''node-1'']\<rparr>)
       \<le> desired_capacity ((example_group ''a'' 1 2 10)\<lparr>unschedulable_nodes := [''node-1'']\<rparr>)
   \<and> desired_capacity ((example_group ''a'' 1 2 10)\<lparr>unschedulable_nodes := [''node-1'']\<rparr>)
       \<le> max_size ((example_group ''a'' 1 2 10)\<lparr>unschedulable_nodes := [''node-1'']\<rparr>)
   \<and> (2::int) \<le> desired_capacity ((example_group ''a'' 1 2 10)\<lparr>unschedulable_nodes := [''node-1'']\<rparr>)
   \<and> actual_capacity ((example_group ''a'' 1 2 10)\<lparr>unschedulable_nodes := [''node-1'']\<rparr>) \<le> 2"
proof -
  let ?op = "\<lparr>op_group = example_group ''a'' 0 0 10, op_new_capacity = 2, op_units_requested = 2,
     op_assigned_pods = [[example_pod 0 1, example_pod 1 1], [example_pod 2 1]],
     op_result = Returns True\<rparr>"
  let ?g' = "(example_group ''a'' 1 2 10)\<lparr>unschedulable_nodes := [''node-1'']\<rparr>"
  let ?w' = "(example_world 0)\<lparr>group_is_timed_out := \<lambda>g. True\<rparr>"
  let ?op' = "\<lparr>op_group = ?g', op_new_capacity = 2, op_units_requested = 1,
       op_assigned_pods = [[example_pod 0 1, example_pod 1 1], [example_pod 2 1]],
       op_result = Returns True\<rparr>"
  have m: "?op \<in> set (decide_num_instances (example_world 0) (example_pending 3)
              [example_group ''a'' 0 0 10] [])"
    by (simp add: example_decide_three_pods)
  have a: "actual_capacity (op_group ?op) \<le> desired_capacity (op_group ?op)"
    by (simp add: example_group_def)
  have d: "desired_capacity (op_group ?op) \<le> max_size (op_group ?op)"
    by (simp add: example_group_def)
  have o: "\<not> timeouts_is_timed_out (example_world 0) (example_group ''a'' 0 0 10)
           \<and> \<not> group_is_timed_out (example_world 0) (example_group ''a'' 0 0 10)
           \<and> - 1 \<le> over_provision (example_world 0)"
    by (simp add: example_world_def)
  have m': "?op' \<in> set (decide_num_instances ?w' (example_pending 3) [?g'] [])"
    by (simp add: example_decide_timed_out)
  have a': "actual_capacity (op_group ?op') \<le> desired_capacity (op_group ?op')"
    by (simp add: example_group_def)
  have d': "desired_capacity (op_group ?op') \<le> max_size (op_group ?op')"
    by (simp add: example_group_def)
  have t': "group_is_timed_out ?w' ?g'" by simp
  from new_capacity_within_bounds[OF m a d] new_capacity_within_bounds[OF m' a' d']
    m a d o m' a' d' t'
  show ?thesis by simp
qed

section \<open>How often \<^verbatim>\<open>apply\<close> decides\<close>

lemma scale_group_append:
  "scale_group w pods group' ops = ops @ scale_group w pods group' []"
  by (simp add: scale_group_def Let_def split: option.splits prod.splits)

lemma scale_groups_append:
  "fold (scale_group w pods) groups ops = ops @ fold (scale_group w pods) groups []"
proof (induction groups arbitrary: ops)
  case Nil
  show ?case by simp
next
  case (Cons g groups)
  have "fold (scale_group w pods) (g # groups) ops
        = scale_group w pods g ops @ fold (scale_group w pods) groups []"
    using Cons.IH[of "scale_group w pods g ops"] by simp
  also have "\<dots> = ops @ scale_group w pods g [] @ fold (scale_group w pods) groups []"
    using scale_group_append[of w pods g ops] by simp
  also have "\<dots> = ops @ fold (scale_group w pods) (g # groups) []"
    using Cons.IH[of "scale_group w pods g []"] by simp
  finally show ?case .
qed

lemma decide_num_instances_append_aux:
  "fold (\<lambda>selectors_hash ops.
             let pods = pending_get pending_pods selectors_hash;
                 groups = prioritize_groups w (get_groups_for_hash w asgs selectors_hash)
             in fold (scale_group w pods) groups ops) hashes ops
   = ops @ fold (\<lambda>selectors_hash ops.
             let pods = pending_get pending_pods selectors_hash;
                 groups = prioritize_groups w (get_groups_for_hash w asgs selectors_hash)
             in fold (scale_group w pods) groups ops) hashes []"
  (is "fold ?f hashes ops = ops @ fold ?f hashes []")
proof (induction hashes arbitrary: ops)
  case Nil
  show ?case by simp
next
  case (Cons h hashes)
  have step: "?f h ops = ops @ ?f h []" for ops
    using scale_groups_append[of w "pending_get pending_pods h"
        "prioritize_groups w (get_groups_for_hash w asgs h)" ops]
    by (simp add: Let_def)
  have "fold ?f (h # hashes) ops = ?f h ops @ fold ?f hashes []"
    using Cons.IH[of "?f h ops"] by simp
  also have "\<dots> = ops @ ?f h [] @ fold ?f hashes []"
    using step[of ops] by simp
  also have "\<dots> = ops @ fold ?f (h # hashes) []"
    using Cons.IH[of "?f h []"] by simp
  finally show ?case .
qed

lemma decide_num_instances_append:
  "decide_num_instances w pending_pods asgs ops = ops @ decide_num_instances w pending_pods asgs []"
  unfolding decide_num_instances_def by (rule decide_num_instances_append_aux)

lemma fold_decide_num_instances:
  "fold (\<lambda>selectors_hash ops. decide_num_instances w pending_pods asgs ops) hashes ops
   = ops @ concat (replicate (length hashes) (decide_num_instances w pending_pods asgs []))"
proof (induction hashes arbitrary: ops)
  case Nil
  show ?case by simp
next
  case (Cons h hashes)
  show ?case
    using Cons.IH[of "decide_num_instances w pending_pods asgs ops"]
      decide_num_instances_append[of w pending_pods asgs ops]
    by simp
qed

text \<open>
  What \<^verbatim>\<open>apply\<close> issues in one cycle: the whole pass of \<^verbatim>\<open>decide_num_instances\<close> over
  all the keys, once for every key of \<^verbatim>\<open>pending_pods\<close>.
\<close>

lemma scaling_policy_apply_repeats:
  "fst (scaling_policy_apply w pending_pods asgs)
   = concat (replicate (length (pending_keys pending_pods))
               (decide_num_instances w pending_pods asgs []))"
  by (simp add: scaling_policy_apply_def Let_def fold_decide_num_instances)

lemma example_decide_two_keys:
  "decide_num_instances (example_world 0)
     [(''a'', [example_pod 1 1]), (''b'', [example_pod 2 1])]
     [example_group ''a'' 0 0 10, example_group ''b'' 0 0 10] []
   = [\<lparr>op_group = example_group ''a'' 0 0 10, op_new_capacity = 1, op_units_requested = 1,
        op_assigned_pods = [[example_pod 1 1]], op_result = Returns True\<rparr>,
      \<lparr>op_group = example_group ''b'' 0 0 10, op_new_capacity = 1, op_units_requested = 1,
        op_assigned_pods = [[example_pod 2 1]], op_result = Returns True\<rparr>]"
  by (simp add: decide_num_instances_def pending_keys_def pending_get_def
      scale_group_def units_for_group_def allocate_def place_pods_def place_pod_def
      accounted_pods_def create_async_operation_def example_world_def example_group_def
      example_pod_def Let_def)

text \<open>
  C2: the code at the failing input. With two keys \<open>''a''\<close> and \<open>''b''\<close>, one pod under each
  and one group for each, one call of \<^verbatim>\<open>apply\<close> issues four scale calls: the decision for
  each key is made twice, and each group receives two scale requests for its key.
\<close>

theorem apply_repeats_every_decision_example:
  "map (\<lambda>operation. (group_name (op_group operation), op_new_capacity operation))
     (fst (scaling_policy_apply (example_world 0)
        [(''a'', [example_pod 1 1]), (''b'', [example_pod 2 1])]
        [example_group ''a'' 0 0 10, example_group ''b'' 0 0 10]))
   = [(''a'', 1), (''b'', 1), (''a'', 1), (''b'', 1)]"
proof -
  have k: "pending_keys [(''a'', [example_pod 1 1]), (''b'', [example_pod 2 1])] = [''a'', ''b'']"
    by (simp add: pending_keys_def)
  show ?thesis
    unfolding scaling_policy_apply_repeats example_decide_two_keys k
    by (simp add: example_group_def)
qed

section \<open>The notifications of one operation\<close>

lemma notify_loop_length:
  "length (notify_loop group' units_requested flat assigned_pods) = length assigned_pods"
  by (induction assigned_pods arbitrary: flat) (simp_all add: Let_def)

text \<open>
  The number of \<^verbatim>\<open>notify_scale\<close> calls for one operation: one for every bin when the
  result is true, none otherwise.
\<close>

lemma notify_if_scaled_length:
  "length (notify_if_scaled operation) =
     (if op_result operation = Returns True then length (op_assigned_pods operation) else 0)"
  by (auto simp: notify_if_scaled_def notify_loop_length split: future_result.splits)

text \<open>
  C6: the code at the failing input. An operation with two bins, one pod in each, that
  resolves successfully: \<^verbatim>\<open>notify_scale\<close> is called twice, the first time with the pod
  of the first bin only.
\<close>

theorem notify_scale_called_per_bin_example:
  "notify_if_scaled (example_operation [[example_pod 1 1], [example_pod 2 1]] (Returns True))
   = [NotifyScale (example_group ''a'' 0 0 10) 2 [example_pod 1 1],
      NotifyScale (example_group ''a'' 0 0 10) 2 [example_pod 1 1, example_pod 2 1]]"
  by (simp add: notify_if_scaled_def example_operation_def Let_def)

section \<open>What \<^verbatim>\<open>fulfill_requests\<close> lets through\<close>

lemma fulfill_loop_handled:
  "\<forall>operation\<in>set ops. handled (op_result operation) \<Longrightarrow>
   fulfill_loop (ops @ rest) f =
     fulfill_loop rest (f\<lparr>logged := logged f @ concat (map (\<lambda>operation. warning (op_result operation)) ops),
                            awaited := awaited f + length ops\<rparr>)"
proof (induction ops arbitrary: f)
  case Nil
  show ?case by simp
next
  case (Cons operation ops)
  then have h: "handled (op_result operation)"
    and rest: "\<forall>operation\<in>set ops. handled (op_result operation)" by simp_all
  show ?case
  proof (cases "op_result operation")
    case (Returns v)
    then show ?thesis using Cons.IH[OF rest] by (simp add: Let_def)
  next
    case (Raises e)
    with h show ?thesis using Cons.IH[OF rest]
      by (cases e) (simp_all add: Let_def)
  qed
qed

lemma fulfill_loop_unhandled:
  "op_result operation = Raises e \<Longrightarrow> \<not> handled (Raises e) \<Longrightarrow>
   fulfill_loop (operation # rest) f = f\<lparr>awaited := awaited f + 1, raised := Some e\<rparr>"
  by (cases e) (simp_all add: Let_def)

text \<open>
  C8, as stated, fails: \<^verbatim>\<open>fulfill_requests\<close> catches \<^verbatim>\<open>CloudError\<close> and
  \<^verbatim>\<open>TimeoutError\<close> only. When the result of the second of three operations raises any
  other exception, that exception leaves \<^verbatim>\<open>fulfill_requests\<close> and the third operation is
  never awaited.
\<close>

theorem fulfill_requests_propagates_counterexample:
  "fulfill_requests
     [example_operation [] (Raises (CloudError ''quota'')),
      example_operation [] (Raises (OtherException ''ValueError'')),
      example_operation [] (Returns True)]
   = \<lparr>logged = [''Error while scaling Scale Set: quota''], awaited = 2,
      raised = Some (OtherException ''ValueError'')\<rparr>"
  by (simp add: fulfill_requests_def example_operation_def Let_def)

text \<open>
  C8, amended. For every list of async operations whose results return or raise
  \<^verbatim>\<open>CloudError\<close> or \<^verbatim>\<open>TimeoutError\<close>, \<^verbatim>\<open>fulfill_requests\<close> awaits every operation and
  returns normally, with one warning in the log for every failure, in order: no failure
  keeps the remaining operations from being awaited. An exception of any other class,
  raised by the first operation that is not of this kind, leaves \<^verbatim>\<open>fulfill_requests\<close>,
  and the operations after it are not awaited.
\<close>

theorem fulfill_requests_handles_provider_errors:
  "((\<forall>operation\<in>set async_operations. handled (op_result operation)) \<longrightarrow>
      fulfill_requests async_operations =
        \<lparr>logged = concat (map (\<lambda>operation. warning (op_result operation)) async_operations),
         awaited = length async_operations, raised = None\<rparr>)
   \<and> ((\<forall>operation\<in>set before. handled (op_result operation))
        \<and> op_result failing = Raises e \<and> \<not> handled (Raises e) \<longrightarrow>
      fulfill_requests (before @ failing # after) =
        \<lparr>logged = concat (map (\<lambda>operation. warning (op_result operation)) before),
         awaited = length before + 1, raised = Some e\<rparr>)"
proof (intro conjI impI)
  assume "\<forall>operation\<in>set async_operations. handled (op_result operation)"
  from fulfill_loop_handled[OF this, of "[]"]
  show "fulfill_requests async_operations =
        \<lparr>logged = concat (map (\<lambda>operation. warning (op_result operation)) async_operations),
         awaited = length async_operations, raised = None\<rparr>"
    by (simp add: fulfill_requests_def)
next
  assume a: "(\<forall>operation\<in>set before. handled (op_result operation))
        \<and> op_result failing = Raises e \<and> \<not> handled (Raises e)"
  then have b: "\<forall>operation\<in>set before. handled (op_result operation)" by blast
  from a have r: "op_result failing = Raises e" and nh: "\<not> handled (Raises e)" by blast+
  have "fulfill_loop (failing # after)
       \<lparr>logged = concat (map (\<lambda>operation. warning (op_result operation)) before),
        awaited = length before, raised = None\<rparr>
     = \<lparr>logged = concat (map (\<lambda>operation. warning (op_result operation)) before),
        awaited = length before + 1, raised = Some e\<rparr>"
    unfolding fulfill_loop_unhandled[OF r nh] by simp
  then show "fulfill_requests (before @ failing # after) =
        \<lparr>logged = concat (map (\<lambda>operation. warning (op_result operation)) before),
         awaited = length before + 1, raised = Some e\<rparr>"
    unfolding fulfill_requests_def fulfill_loop_handled[OF b] by simp
qed

theorem fulfill_requests_handles_provider_errors_witness:
  "handled (op_result (example_operation [] (Raises (CloudError ''quota''))))
   \<and> handled (op_result (example_operation [] (Raises TimeoutError)))
   \<and> handled (op_result (example_operation [] (Returns True)))
   \<and> fulfill_requests
       [example_operation [] (Raises (CloudError ''quota'')),
        example_operation [] (Raises TimeoutError),
        example_operation [] (Returns True)]
     = \<lparr>logged = [''Error while scaling Scale Set: quota'', ''Timeout while scaling Scale Set''],
        awaited = 3, raised = None\<rparr>
   \<and> \<not> handled (Raises (OtherException ''ValueError''))
   \<and> fulfill_requests
       ([example_operation [] (Raises TimeoutError)]
        @ example_operation [] (Raises (OtherException ''ValueError''))
        # [example_operation [] (Returns True)])
     = \<lparr>logged = [''Timeout while scaling Scale Set''], awaited = 2,
        raised = Some (OtherException ''ValueError'')\<rparr>"
proof -
  have h: "\<forall>operation\<in>set [example_operation [] (Raises (CloudError ''quota'')),
        example_operation [] (Raises TimeoutError),
        example_operation [] (Returns True)]. handled (op_result operation)"
    by (simp add: example_operation_def)
  have g: "(\<forall>operation\<in>set [example_operation [] (Raises TimeoutError)]. handled (op_result operation))
      \<and> op_result (example_operation [] (Raises (OtherException ''ValueError'')))
          = Raises (OtherException ''ValueError'')
      \<and> \<not> handled (Raises (OtherException ''ValueError''))"
    by (simp add: example_operation_def)
  note t = fulfill_requests_handles_provider_errors
  from t[where async_operations = "[example_operation [] (Raises (CloudError ''quota'')),
        example_operation [] (Raises TimeoutError),
        example_operation [] (Returns True)]", THEN conjunct1, THEN mp, OF h]
    t[where before = "[example_operation [] (Raises TimeoutError)]"
      and failing = "example_operation [] (Raises (OtherException ''ValueError''))"
      and e = "OtherException ''ValueError''"
      and after = "[example_operation [] (Returns True)]", THEN conjunct2, THEN mp, OF g]
  show ?thesis
    by (simp add: example_operation_def)
qed

section \<open>The cost based policy: the budget gate and the hour\<close>

lemma example_avg_hours:
  "avg_hours_used_per_instance (example_cost_policy max_cost spent cost) = 0.25"
  by (simp add: avg_hours_used_per_instance_def example_cost_policy_def)

lemma example_budget_gate_100:
  "budget_gate (example_cost_policy 10 0 2) (example_group ''a'' 0 0 10) 100 = Inr 16"
  by (simp add: budget_gate_def example_avg_hours upt_rec)
    (simp add: example_cost_policy_def example_group_def)

text \<open>
  C3, as stated, fails: the loop stops at the first \<open>i\<close> whose predicted cost is above the
  limit and keeps \<open>i + 1\<close>, the unit that crosses the limit included. With the numbers of
  the claim the result is not 15.
\<close>

theorem budget_gate_caps_at_15_counterexample:
  "max_cost_per_hour (example_cost_policy 10 0 2) = 10
   \<and> spent_this_hour (example_cost_policy 10 0 2) = 0
   \<and> costs_per_hour (example_cost_policy 10 0 2) (instance_type (example_group ''a'' 0 0 10)) = Some 2
   \<and> avg_hours_used_per_instance (example_cost_policy 10 0 2) = 0.25
   \<and> budget_gate (example_cost_policy 10 0 2) (example_group ''a'' 0 0 10) 100 \<noteq> Inr 15"
  by (simp add: example_budget_gate_100 example_avg_hours)
    (simp add: example_cost_policy_def example_group_def)

text \<open>
  C3, amended. With \<open>max_cost_per_hour = 10\<close>, a cost per hour of 2 for the group's
  instance type, no instance tracked yet (so that the average is 0.25 hours),
  \<open>spent_this_hour = 0\<close> and 100 units requested, the gate caps the request at the smallest
  \<open>i + 1\<close> with \<open>(i + 1) * 0.25 * 2 > 0.75 * 10\<close>, which is 16: 15 units are predicted to
  cost exactly 7.5, which is not above the limit.
\<close>

theorem budget_gate_caps_at_16:
  "budget_gate (example_cost_policy 10 0 2) (example_group ''a'' 0 0 10) 100 = Inr 16
   \<and> avg_hours_used_per_instance (example_cost_policy 10 0 2) = 0.25
   \<and> (0::rat) + 16 * 0.25 * 2 > 10 * 0.75
   \<and> \<not> ((0::rat) + 15 * 0.25 * 2 > 10 * 0.75)"
  by (simp add: example_budget_gate_100 example_avg_hours)

lemma new_hour_never_fires:
  "start_time pol \<le> curr_time \<Longrightarrow> 0 \<le> num_hours pol \<Longrightarrow> new_hour pol curr_time = pol"
proof -
  assume a: "start_time pol \<le> curr_time" and b: "0 \<le> num_hours pol"
  from a have "(start_time pol - curr_time) / 3600 \<le> 0"
    by (simp add: divide_le_0_iff)
  moreover from b have "(0::rat) \<le> of_int (num_hours pol)" by simp
  ultimately have "\<not> (start_time pol - curr_time) / 3600 > of_int (num_hours pol)"
    by linarith
  then show ?thesis by (simp add: new_hour_def)
qed

text \<open>
  C4: the code at the failing input. The policy was built at time 0 and has spent 5 in
  hour 0; \<^verbatim>\<open>decide_num_instances\<close> runs at time 7200, two whole hours later. Line 160
  subtracts the current time from the start time, so it compares \<open>-2\<close> with
  \<open>num_hours = 0\<close>: neither \<open>num_hours\<close> nor \<open>spent_this_hour\<close> changes.
\<close>

theorem new_hour_not_detected_example:
  "num_hours (fst (cost_decide_num_instances (example_world 0) (example_cost_policy 10 5 2)
                     7200 (example_pending 1) [example_group ''a'' 0 0 10] [])) = 0
   \<and> spent_this_hour (fst (cost_decide_num_instances (example_world 0)
                     (example_cost_policy 10 5 2) 7200 (example_pending 1)
                     [example_group ''a'' 0 0 10] [])) = 5
   \<and> start_time (example_cost_policy 10 5 2) = 0
   \<and> num_hours (example_cost_policy 10 5 2) = 0"
  by (simp add: cost_decide_num_instances_def Let_def new_hour_def example_cost_policy_def)

lemma budget_loop_result:
  assumes "costs_per_hour pol (instance_type group') = Some c"
  shows "\<exists>k. budget_loop pol group' avg units_requested is = Inr k
             \<and> (k = units_requested \<or> (\<exists>i\<in>set is. k = int i + 1))"
  using assms by (induction "is") (auto simp: Let_def)

lemma budget_gate_at_least_one:
  assumes "costs_per_hour pol (instance_type group') = Some c" and "1 \<le> units_requested"
  shows "\<exists>k. budget_gate pol group' units_requested = Inr k \<and> 1 \<le> k \<and> k \<le> units_requested"
proof -
  from budget_loop_result[OF assms(1), of "avg_hours_used_per_instance pol" units_requested
      "[0..<nat units_requested]"]
  obtain k where k: "budget_gate pol group' units_requested = Inr k"
    and r: "k = units_requested \<or> (\<exists>i\<in>set [0..<nat units_requested]. k = int i + 1)"
    unfolding budget_gate_def by blast
  from r assms(2) have "1 \<le> k \<and> k \<le> units_requested" by auto
  with k show ?thesis by blast
qed

lemma budget_gate_key_error:
  assumes "costs_per_hour pol (instance_type group') = None" and "1 \<le> units_requested"
  shows "budget_gate pol group' units_requested = Inl (KeyError (instance_type group'))"
proof -
  from assms(2) have "[0..<nat units_requested] = 0 # [1..<nat units_requested]"
    by (simp add: upt_conv_Cons)
  then show ?thesis
    unfolding budget_gate_def using assms(1) by simp
qed

lemma example_budget_gate_over_budget:
  "budget_gate (example_cost_policy 10 8 2) (example_group ''a'' 0 0 10) 2 = Inr 1"
  by (simp add: budget_gate_def example_avg_hours upt_rec)
    (simp add: example_cost_policy_def example_group_def)

lemma example_units_for_group_unknown_type:
  "units_for_group (example_world 0)
     ((example_group ''a'' 0 0 10)\<lparr>instance_type := ''Standard_NC6''\<rparr>) [example_pod 0 1]
   = Some ([[example_pod 0 1]], 1)"
  by (simp add: units_for_group_def allocate_def place_pods_def place_pod_def
      accounted_pods_def example_world_def example_group_def example_pod_def Let_def)

lemma example_units_for_group_three_pods:
  "units_for_group (example_world 0) (example_group ''a'' 0 0 10)
     [example_pod 0 1, example_pod 1 1, example_pod 2 1]
   = Some ([[example_pod 0 1, example_pod 1 1], [example_pod 2 1]], 2)"
  by (simp add: units_for_group_def allocate_def place_pods_def place_pod_def
      accounted_pods_def example_world_def example_group_def example_pod_def Let_def
      enumerate_eq_zip)

text \<open>
  C9, as stated, fails: the gate reads the cost of the group's instance type inside its
  loop (line 228). For a group whose instance type has no entry in the cost table, with
  one unit requested and \<open>spent_this_hour = 8\<close> above \<open>0.75 * 10\<close>, the lookup raises
  \<^verbatim>\<open>KeyError\<close>: \<^verbatim>\<open>decide_num_instances\<close> ends there and no scale call is issued. And
  where a scale call is issued it need not be for one unit: nothing keeps a cost per hour
  in the table from being negative, and with a cost of \<open>-100\<close>, the same
  \<open>spent_this_hour = 8\<close> and two units requested, the predicted cost never passes the
  limit, so that the scale call is for \<open>actual_capacity + 2\<close>.
\<close>

theorem budget_gate_key_error_counterexample:
  "units_for_group (example_world 0)
       ((example_group ''a'' 0 0 10)\<lparr>instance_type := ''Standard_NC6''\<rparr>) [example_pod 0 1]
     = Some ([[example_pod 0 1]], 1)
   \<and> max_cost_per_hour (example_cost_policy 10 8 2) * 0.75
       < spent_this_hour (example_cost_policy 10 8 2)
   \<and> cost_scale_group (example_world 0) (example_cost_policy 10 8 2) [example_pod 0 1]
       ((example_group ''a'' 0 0 10)\<lparr>instance_type := ''Standard_NC6''\<rparr>)
     = Inl (KeyError ''Standard_NC6'')
   \<and> snd (cost_decide_num_instances (example_world 0) (example_cost_policy 10 8 2) 0
            [(''a'', [example_pod 0 1])]
            [(example_group ''a'' 0 0 10)\<lparr>instance_type := ''Standard_NC6''\<rparr>] [])
     = ([], Some (KeyError ''Standard_NC6''))
   \<and> costs_per_hour (example_cost_policy 10 8 (- 100))
       (instance_type (example_group ''a'' 0 0 10)) = Some (- 100)
   \<and> units_for_group (example_world 0) (example_group ''a'' 0 0 10)
       [example_pod 0 1, example_pod 1 1, example_pod 2 1]
     = Some ([[example_pod 0 1, example_pod 1 1], [example_pod 2 1]], 2)
   \<and> cost_scale_group (example_world 0) (example_cost_policy 10 8 (- 100))
       [example_pod 0 1, example_pod 1 1, example_pod 2 1] (example_group ''a'' 0 0 10)
     = Inr (Some (create_async_operation (example_world 0) (example_group ''a'' 0 0 10)
                    [[example_pod 0 1, example_pod 1 1], [example_pod 2 1]]
                    (actual_capacity (example_group ''a'' 0 0 10) + 2) 2))"
proof -
  have neg: "costs_per_hour (example_cost_policy 10 8 (- 100))
       (instance_type (example_group ''a'' 0 0 10)) = Some (- 100)"
    by (simp add: example_cost_policy_def example_group_def)
  have g2: "budget_gate (example_cost_policy 10 8 (- 100)) (example_group ''a'' 0 0 10) 2 = Inr 2"
    by (simp add: budget_gate_def example_avg_hours upt_rec)
      (simp add: example_cost_policy_def example_group_def)
  have c2: "cost_scale_group (example_world 0) (example_cost_policy 10 8 (- 100))
       [example_pod 0 1, example_pod 1 1, example_pod 2 1] (example_group ''a'' 0 0 10)
     = Inr (Some (create_async_operation (example_world 0) (example_group ''a'' 0 0 10)
                    [[example_pod 0 1, example_pod 1 1], [example_pod 2 1]]
                    (actual_capacity (example_group ''a'' 0 0 10) + 2) 2))"
    unfolding cost_scale_group_def example_units_for_group_three_pods by (simp add: g2)
  have g: "budget_gate (example_cost_policy 10 8 2)
             ((example_group ''a'' 0 0 10)\<lparr>instance_type := ''Standard_NC6''\<rparr>) 1
           = Inl (KeyError ''Standard_NC6'')"
    by (simp add: budget_gate_def example_cost_policy_def example_group_def)
  have c: "cost_scale_group (example_world 0) (example_cost_policy 10 8 2) [example_pod 0 1]
       ((example_group ''a'' 0 0 10)\<lparr>instance_type := ''Standard_NC6''\<rparr>)
     = Inl (KeyError ''Standard_NC6'')"
    by (simp add: cost_scale_group_def example_units_for_group_unknown_type g)
  have n: "new_hour (example_cost_policy 10 8 2) 0 = example_cost_policy 10 8 2"
    by (simp add: new_hour_def example_cost_policy_def)
  have f: "get_groups_for_hash (example_world 0)
             [(example_group ''a'' 0 0 10)\<lparr>instance_type := ''Standard_NC6''\<rparr>] ''a''
           = [(example_group ''a'' 0 0 10)\<lparr>instance_type := ''Standard_NC6''\<rparr>]"
    "prioritize_groups (example_world 0) gs = gs" for gs
    by (simp_all add: example_world_def example_group_def)
  have d: "snd (cost_decide_num_instances (example_world 0) (example_cost_policy 10 8 2) 0
            [(''a'', [example_pod 0 1])]
            [(example_group ''a'' 0 0 10)\<lparr>instance_type := ''Standard_NC6''\<rparr>] [])
     = ([], Some (KeyError ''Standard_NC6''))"
    by (simp add: cost_decide_num_instances_def n pending_keys_def pending_get_def f c)
  have s: "max_cost_per_hour (example_cost_policy 10 8 2) * 0.75
       < spent_this_hour (example_cost_policy 10 8 2)"
    by (simp add: example_cost_policy_def)
  from example_units_for_group_unknown_type s c d neg example_units_for_group_three_pods c2
  show ?thesis by blast
qed

text \<open>
  C9, amended. In the cost based policy, whenever the unconstrained \<open>units_requested\<close> is
  at least 1 and the cost table has an entry for the group's instance type, the budget
  gate never reduces it below 1: it returns some \<open>k\<close> with \<open>1 \<le> k \<le> units_requested\<close>,
  and the scale call to \<open>actual_capacity + k\<close> is issued. Nothing is asked of
  \<open>spent_this_hour\<close>: even if it is already above \<open>0.75 * max_cost_per_hour\<close> before any
  new unit is costed, at least one unit is still requested. Without an entry for the
  instance type the lookup raises \<^verbatim>\<open>KeyError\<close> and no scale call is issued.

  Whether \<open>k\<close> is exactly 1 is decided by the float comparison of line 229 for the first
  unit, and is not stated: besides a negative cost, a rounded product keeps it from
  following from \<open>spent_this_hour > 0.75 * max_cost_per_hour\<close> (the float product
  \<open>0.1 * 0.75\<close> is \<open>0.07500000000000001\<close>, so that a \<open>spent_this_hour\<close> of this value,
  for a maximum of \<open>0.1\<close>, is above the exact limit and does not pass the test). The
  statement below holds whatever the comparisons give.
\<close>

theorem budget_gate_requests_at_least_one:
  assumes "units_for_group w group' pods = Some (assigned_pods, units_requested)"
    and "1 \<le> units_requested"
  shows "(costs_per_hour pol (instance_type group') \<noteq> None \<longrightarrow>
           (\<exists>k. 1 \<le> k \<and> k \<le> units_requested
              \<and> budget_gate pol group' units_requested = Inr k
              \<and> cost_scale_group w pol pods group'
                  = Inr (Some (create_async_operation w group' assigned_pods
                                 (actual_capacity group' + k) k))))
     \<and> (costs_per_hour pol (instance_type group') = None \<longrightarrow>
           budget_gate pol group' units_requested = Inl (KeyError (instance_type group'))
           \<and> cost_scale_group w pol pods group' = Inl (KeyError (instance_type group')))"
proof (intro conjI impI)
  assume "costs_per_hour pol (instance_type group') \<noteq> None"
  then obtain c where c: "costs_per_hour pol (instance_type group') = Some c" by blast
  from budget_gate_at_least_one[OF c assms(2)]
  obtain k where k: "budget_gate pol group' units_requested = Inr k"
    and b: "1 \<le> k" "k \<le> units_requested" by blast
  from k have "cost_scale_group w pol pods group'
                = Inr (Some (create_async_operation w group' assigned_pods
                               (actual_capacity group' + k) k))"
    by (simp add: cost_scale_group_def assms(1) Let_def)
  with k b show "\<exists>k. 1 \<le> k \<and> k \<le> units_requested
            \<and> budget_gate pol group' units_requested = Inr k
            \<and> cost_scale_group w pol pods group'
                = Inr (Some (create_async_operation w group' assigned_pods
                               (actual_capacity group' + k) k))"
    by blast
next
  assume n: "costs_per_hour pol (instance_type group') = None"
  from budget_gate_key_error[OF n assms(2)]
  show e: "budget_gate pol group' units_requested = Inl (KeyError (instance_type group'))" .
  then show "cost_scale_group w pol pods group' = Inl (KeyError (instance_type group'))"
    by (simp add: cost_scale_group_def assms(1))
qed

theorem budget_gate_requests_at_least_one_witness:
  "units_for_group (example_world 0) (example_group ''a'' 0 0 10)
       [example_pod 0 1, example_pod 1 1, example_pod 2 1]
     = Some ([[example_pod 0 1, example_pod 1 1], [example_pod 2 1]], 2)
   \<and> (1::int) \<le> 2
   \<and> costs_per_hour (example_cost_policy 10 8 2) (instance_type (example_group ''a'' 0 0 10))
       \<noteq> None
   \<and> max_cost_per_hour (example_cost_policy 10 8 2) * 0.75
       < spent_this_hour (example_cost_policy 10 8 2)
   \<and> budget_gate (example_cost_policy 10 8 2) (example_group ''a'' 0 0 10) 2 = Inr 1
   \<and> cost_scale_group (example_world 0) (example_cost_policy 10 8 2)
       [example_pod 0 1, example_pod 1 1, example_pod 2 1] (example_group ''a'' 0 0 10)
     = Inr (Some (create_async_operation (example_world 0) (example_group ''a'' 0 0 10)
                    [[example_pod 0 1, example_pod 1 1], [example_pod 2 1]]
                    (actual_capacity (example_group ''a'' 0 0 10) + 1) 1))
   \<and> units_for_group (example_world 0)
       ((example_group ''a'' 0 0 10)\<lparr>instance_type := ''Standard_NC6''\<rparr>) [example_pod 0 1]
     = Some ([[example_pod 0 1]], 1)
   \<and> costs_per_hour (example_cost_policy 10 8 2)
       (instance_type ((example_group ''a'' 0 0 10)\<lparr>instance_type := ''Standard_NC6''\<rparr>)) = None
   \<and> cost_scale_group (example_world 0) (example_cost_policy 10 8 2) [example_pod 0 1]
       ((example_group ''a'' 0 0 10)\<lparr>instance_type := ''Standard_NC6''\<rparr>)
     = Inl (KeyError ''Standard_NC6'')"
proof -
  let ?g' = "(example_group ''a'' 0 0 10)\<lparr>instance_type := ''Standard_NC6''\<rparr>"
  have one: "(1::int) \<le> 2" "(1::int) \<le> 1" by simp_all
  have c: "costs_per_hour (example_cost_policy 10 8 2) (instance_type (example_group ''a'' 0 0 10))
       \<noteq> None"
    by (simp add: example_cost_policy_def example_group_def)
  have n: "costs_per_hour (example_cost_policy 10 8 2) (instance_type ?g') = None"
    by (simp add: example_cost_policy_def)
  have s: "max_cost_per_hour (example_cost_policy 10 8 2) * 0.75
             < spent_this_hour (example_cost_policy 10 8 2)"
    by (simp add: example_cost_policy_def)
  have t: "instance_type ?g' = ''Standard_NC6''" by simp
  from budget_gate_requests_at_least_one[OF example_units_for_group_three_pods one(1),
      where pol = "example_cost_policy 10 8 2", THEN conjunct1, THEN mp, OF c]
  obtain k where "budget_gate (example_cost_policy 10 8 2) (example_group ''a'' 0 0 10) 2 = Inr k"
    and "cost_scale_group (example_world 0) (example_cost_policy 10 8 2)
       [example_pod 0 1, example_pod 1 1, example_pod 2 1] (example_group ''a'' 0 0 10)
     = Inr (Some (create_async_operation (example_world 0) (example_group ''a'' 0 0 10)
                    [[example_pod 0 1, example_pod 1 1], [example_pod 2 1]]
                    (actual_capacity (example_group ''a'' 0 0 10) + k) k))"
    by blast
  then have g: "budget_gate (example_cost_policy 10 8 2) (example_group ''a'' 0 0 10) 2 = Inr 1"
    and sc: "cost_scale_group (example_world 0) (example_cost_policy 10 8 2)
       [example_pod 0 1, example_pod 1 1, example_pod 2 1] (example_group ''a'' 0 0 10)
     = Inr (Some (create_async_operation (example_world 0) (example_group ''a'' 0 0 10)
                    [[example_pod 0 1, example_pod 1 1], [example_pod 2 1]]
                    (actual_capacity (example_group ''a'' 0 0 10) + 1) 1))"
    using example_budget_gate_over_budget by simp_all
  from budget_gate_requests_at_least_one[OF example_units_for_group_unknown_type one(2),
      where pol = "example_cost_policy 10 8 2", THEN conjunct2, THEN mp, OF n]
  have ke: "cost_scale_group (example_world 0) (example_cost_policy 10 8 2) [example_pod 0 1] ?g'
     = Inl (KeyError ''Standard_NC6'')"
    unfolding t by blast
  from example_units_for_group_three_pods one(1) c s g sc
    example_units_for_group_unknown_type n ke
  show ?thesis by blast
qed

section \<open>The growth based policy: when it triggers\<close>

lemma num_pending_pods_nonneg: "0 \<le> num_pending_pods pending_pods"
  unfolding num_pending_pods_def by (rule sum_list_nonneg) auto

lemma num_pending_pods_example: "num_pending_pods (example_pending n) = int n"
  by (simp add: num_pending_pods_def pending_keys_def pending_get_def example_pending_def)

lemma growth_cycles_1_3_7_15:
  assumes "num_pending_pods pp1 = 1" and "num_pending_pods pp2 = 3"
    and "num_pending_pods pp3 = 7" and "num_pending_pods pp4 = 15"
  shows "growth_cycles w (growth_policy_init 2 3) [pp1, pp2] asgs
           = ([False, False], \<lparr>trigger_growth_factor = 2, num_triggers_to_provision = 3,
                               num_triggers = 2, last_num_pods = 3\<rparr>)"
    and "growth_cycles w (growth_policy_init 2 3) [pp1, pp2, pp3] asgs
           = ([False, False, True], growth_policy_init 2 3)"
    and "growth_cycles w (growth_policy_init 2 3) [pp1, pp2, pp3, pp4] asgs
           = ([False, False, True, False],
              \<lparr>trigger_growth_factor = 2, num_triggers_to_provision = 3,
               num_triggers = 1, last_num_pods = 15\<rparr>)"
  by (simp_all add: growth_apply_def count_trigger_def growth_policy_init_def Let_def assms)

lemma growth_apply_recedes:
  assumes f: "trigger_growth_factor pol = 2"
    and less: "of_int (num_pending_pods pending_pods) < of_int (last_num_pods pol) * (0.75 :: rat)"
  shows "num_triggers (fst (growth_apply w pol pending_pods asgs)) = 0"
proof -
  let ?n = "of_int (num_pending_pods pending_pods) :: rat"
  let ?l = "of_int (last_num_pods pol) :: rat"
  have q: "(0.75 :: rat) = 3 / 4" by simp
  have "0 \<le> ?n" using num_pending_pods_nonneg[of pending_pods] by simp
  with less have "\<not> ?n > 2 * ?l" unfolding q by linarith
  with f less have "count_trigger pol (num_pending_pods pending_pods)
                      = pol\<lparr>num_triggers := 0, last_num_pods := 0\<rparr>"
    by (simp add: count_trigger_def)
  then show ?thesis by (simp add: growth_apply_def Let_def)
qed

text \<open>
  C5, as stated, fails: the first call already counts as a trigger, since any count of
  at least 1 is above \<open>2 * 0\<close>. With pending counts 1, 3, 7, 15 the third call is the
  first to run the scaling decision, and the fourth call does not run it.
\<close>

theorem growth_triggers_on_third_call_counterexample:
  "num_pending_pods (example_pending 1) = 1 \<and> num_pending_pods (example_pending 3) = 3
   \<and> num_pending_pods (example_pending 7) = 7 \<and> num_pending_pods (example_pending 15) = 15
   \<and> fst (growth_cycles (example_world 0) (growth_policy_init 2 3)
            [example_pending 1, example_pending 3, example_pending 7, example_pending 15]
            [example_group ''a'' 0 0 10])
      = [False, False, True, False]"
  using growth_cycles_1_3_7_15(3)[of "example_pending 1" "example_pending 3"
      "example_pending 7" "example_pending 15" "example_world 0" "[example_group ''a'' 0 0 10]"]
  by (simp add: num_pending_pods_example)

text \<open>
  C5, amended. For the growth based policy built with a growth factor of 2 and 3 triggers
  to provision, starting from \<open>num_triggers = 0\<close> and \<open>last_num_pods = 0\<close>, the calls of
  \<^verbatim>\<open>apply\<close> with total pending counts 1, 3, 7, 15 run the scaling decision for the first
  time exactly on the third call: \<open>num_triggers\<close> is 2 after the second call and reaches 3
  while 7 is processed, which resets both counters; the fourth call only brings
  \<open>num_triggers\<close> to 1 and does not run the decision. And for this growth factor, any
  call whose pending count is below \<open>0.75 * last_num_pods\<close> leaves \<open>num_triggers\<close> at 0.
\<close>

theorem growth_triggers_on_third_call:
  assumes "num_pending_pods pp1 = 1" and "num_pending_pods pp2 = 3"
    and "num_pending_pods pp3 = 7" and "num_pending_pods pp4 = 15"
  shows "growth_cycles w (growth_policy_init 2 3) [pp1, pp2] asgs
           = ([False, False], \<lparr>trigger_growth_factor = 2, num_triggers_to_provision = 3,
                               num_triggers = 2, last_num_pods = 3\<rparr>)
     \<and> growth_cycles w (growth_policy_init 2 3) [pp1, pp2, pp3] asgs
           = ([False, False, True], growth_policy_init 2 3)
     \<and> growth_cycles w (growth_policy_init 2 3) [pp1, pp2, pp3, pp4] asgs
           = ([False, False, True, False],
              \<lparr>trigger_growth_factor = 2, num_triggers_to_provision = 3,
               num_triggers = 1, last_num_pods = 15\<rparr>)
     \<and> (trigger_growth_factor pol = 2
          \<and> of_int (num_pending_pods pending_pods) < of_int (last_num_pods pol) * (0.75 :: rat)
          \<longrightarrow> num_triggers (fst (growth_apply w' pol pending_pods asgs')) = 0)"
  using growth_cycles_1_3_7_15[OF assms, of w asgs]
    growth_apply_recedes[of pol pending_pods w' asgs']
  by blast

theorem growth_triggers_on_third_call_witness:
  "num_pending_pods (example_pending 1) = 1 \<and> num_pending_pods (example_pending 3) = 3
   \<and> num_pending_pods (example_pending 7) = 7 \<and> num_pending_pods (example_pending 15) = 15
   \<and> growth_cycles (example_world 0) (growth_policy_init 2 3)
        [example_pending 1, example_pending 3, example_pending 7, example_pending 15]
        [example_group ''a'' 0 0 10]
      = ([False, False, True, False],
         \<lparr>trigger_growth_factor = 2, num_triggers_to_provision = 3,
          num_triggers = 1, last_num_pods = 15\<rparr>)
   \<and> of_int (num_pending_pods (example_pending 5)) < (of_int 8 :: rat) * 0.75
   \<and> num_triggers (fst (growth_apply (example_world 0)
        \<lparr>trigger_growth_factor = 2, num_triggers_to_provision = 3,
         num_triggers = 2, last_num_pods = 8\<rparr>
        (example_pending 5) [example_group ''a'' 0 0 10])) = 0"
proof -
  have n: "num_pending_pods (example_pending 1) = 1" "num_pending_pods (example_pending 3) = 3"
    "num_pending_pods (example_pending 7) = 7" "num_pending_pods (example_pending 15) = 15"
    by (simp_all add: num_pending_pods_example)
  have r: "trigger_growth_factor \<lparr>trigger_growth_factor = 2, num_triggers_to_provision = 3,
         num_triggers = 2, last_num_pods = 8\<rparr> = 2
     \<and> of_int (num_pending_pods (example_pending 5))
         < of_int (last_num_pods \<lparr>trigger_growth_factor = 2, num_triggers_to_provision = 3,
         num_triggers = 2, last_num_pods = 8\<rparr>) * (0.75 :: rat)"
    by (simp add: num_pending_pods_example)
  note t = growth_triggers_on_third_call[OF n,
      where w = "example_world 0" and asgs = "[example_group ''a'' 0 0 10]"
        and w' = "example_world 0" and asgs' = "[example_group ''a'' 0 0 10]"
        and pending_pods = "example_pending 5"
        and pol = "\<lparr>trigger_growth_factor = 2, num_triggers_to_provision = 3,
         num_triggers = 2, last_num_pods = 8\<rparr>"]
  from t[THEN conjunct2, THEN conjunct2, THEN conjunct1]
    t[THEN conjunct2, THEN conjunct2, THEN conjunct2, THEN mp, OF r] n r
  show ?thesis by simp
qed

text \<open>
  C10. Right after construction, for any positive growth factor, a call of \<^verbatim>\<open>apply\<close>
  with at least one pending pod takes the branch of line 252: \<open>num_triggers\<close> becomes 1
  and \<open>last_num_pods\<close> the pending count, because the count is compared with the growth
  factor times 0. So the call either leaves \<open>num_triggers\<close> at 1 or, when at most one
  trigger is needed, runs the scaling decision at once.
\<close>

theorem first_call_counts_as_trigger:
  assumes "0 < trigger_growth_factor'" and "1 \<le> num_pending_pods pending_pods"
  shows "count_trigger (growth_policy_init trigger_growth_factor' n) (num_pending_pods pending_pods)
           = (growth_policy_init trigger_growth_factor' n)
               \<lparr>num_triggers := 1, last_num_pods := num_pending_pods pending_pods\<rparr>
     \<and> growth_apply w (growth_policy_init trigger_growth_factor' n) pending_pods asgs
           = (if n \<le> 1
              then (growth_policy_init trigger_growth_factor' n,
                    Some (scaling_policy_apply w pending_pods asgs))
              else ((growth_policy_init trigger_growth_factor' n)
                      \<lparr>num_triggers := 1, last_num_pods := num_pending_pods pending_pods\<rparr>,
                    None))"
proof -
  have c: "count_trigger (growth_policy_init trigger_growth_factor' n) (num_pending_pods pending_pods)
           = (growth_policy_init trigger_growth_factor' n)
               \<lparr>num_triggers := 1, last_num_pods := num_pending_pods pending_pods\<rparr>"
    using assms(2) by (simp add: count_trigger_def growth_policy_init_def)
  show ?thesis
    unfolding growth_apply_def c by (simp add: Let_def growth_policy_init_def)
qed

theorem first_call_counts_as_trigger_witness:
  "(0::rat) < 2 \<and> 1 \<le> num_pending_pods (example_pending 1)
   \<and> num_triggers (count_trigger (growth_policy_init 2 3) (num_pending_pods (example_pending 1))) = 1
   \<and> growth_apply (example_world 0) (growth_policy_init 2 3) (example_pending 1)
        [example_group ''a'' 0 0 10]
      = (\<lparr>trigger_growth_factor = 2, num_triggers_to_provision = 3,
          num_triggers = 1, last_num_pods = 1\<rparr>, None)"
proof -
  have f: "(0::rat) < 2" by simp
  have p: "1 \<le> num_pending_pods (example_pending 1)"
    by (simp add: num_pending_pods_example)
  from first_call_counts_as_trigger[OF f p, of 3 "example_world 0" "[example_group ''a'' 0 0 10]"]
    f p
  show ?thesis by (simp add: growth_policy_init_def num_pending_pods_example)
qed

end
